theory Spec2Isabelle
  imports Main "HOL-Library.Char_ord" "HOL-Library.List_Lexorder" "HOL-Library.Multiset"
begin

section \<open>AscentViewer: the image list and the render pipeline of \<open>ascv_main.py\<close>\<close>

text \<open>
  The development embeds the part of class \<open>MainUi\<close> that builds the image list of a
  directory, steps through it, and renders the selected image in two qualities:
  \<open>updateFunction\<close>, \<open>updateTimerFunc\<close>, \<open>openImage\<close>, \<open>openDir\<close>,
  \<open>dirMakeImageList\<close>, \<open>prevImage\<close> and \<open>nextImage\<close>.

  The instance attributes become the fields of a record; an attribute that \<open>__init__\<close>
  does not assign is an \<open>option\<close>, and reading it while it is \<open>None\<close> is Python's
  \<open>AttributeError\<close>. A method becomes a function from the state to an outcome: the state
  it returns in, or the exception it raises together with the state at the raise (Python
  keeps every assignment made before the raise).
\<close>

subsection \<open>Python library functions the methods call\<close>

text \<open>
  Paths are those of a POSIX system: \<open>os.path\<close> is \<open>posixpath\<close>, and \<open>fnmatch\<close> compares
  names as they are, upper and lower case apart.

  \<open>os.path.basename\<close>: what follows the last slash.
\<close>

definition basename :: "string \<Rightarrow> string" where
  "basename p = rev (takeWhile (\<lambda>c. c \<noteq> CHR ''/'') (rev p))"

text \<open>
  \<open>str.replace(old, new)\<close>: every non-overlapping occurrence of \<open>old\<close>, from the left.
  For an empty \<open>old\<close> Python puts \<open>new\<close> before every character and at the end.
\<close>

fun replace_from :: "char \<Rightarrow> string \<Rightarrow> string \<Rightarrow> string \<Rightarrow> string" where
  "replace_from c cs new [] = []"
| "replace_from c cs new (x # xs) =
     (if x = c \<and> take (length cs) xs = cs
      then new @ replace_from c cs new (drop (length cs) xs)
      else x # replace_from c cs new xs)"

definition str_replace :: "string \<Rightarrow> string \<Rightarrow> string \<Rightarrow> string" where
  "str_replace old new s =
     (case old of
        [] \<Rightarrow> new @ concat (map (\<lambda>x. x # new) s)
      | c # cs \<Rightarrow> replace_from c cs new s)"

text \<open>
  A Python string is kept as its UTF-8 bytes. Python compares strings code point by code
  point, a proper prefix first; on UTF-8 that is the byte-wise order of \<open>List_Lexorder\<close>
  over \<open>Char_ord\<close>. On an ASCII character \<open>str.lower\<close> moves the letters \<open>A\<close> to \<open>Z\<close>
  (codes 65 to 90) up by 32 and keeps every other character.
\<close>

definition char_lower :: "char \<Rightarrow> char" where
  "char_lower c =
     (if (65::nat) \<le> of_char c \<and> of_char c \<le> (90::nat)
      then char_of (of_char c + (32::nat)) else c)"

definition is_ascii :: "string \<Rightarrow> bool" where
  "is_ascii s = list_all (\<lambda>c. (of_char c :: nat) < 128) s"

text \<open>
  \<open>posixpath.split\<close>: the path up to its last slash and what follows it; the head loses its
  trailing slashes unless it consists of slashes only. \<open>posixpath.join\<close> of two parts.
\<close>

definition path_split :: "string \<Rightarrow> string \<times> string" where
  "path_split p =
     (let tail = basename p;
          head = take (length p - length tail) p
      in (if head \<noteq> [] \<and> \<not> list_all (\<lambda>c. c = CHR ''/'') head
          then rev (dropWhile (\<lambda>c. c = CHR ''/'') (rev head)) else head,
          tail))"

definition path_join :: "string \<Rightarrow> string \<Rightarrow> string" where
  "path_join a b =
     (if b \<noteq> [] \<and> hd b = CHR ''/'' then b
      else if a = [] \<or> last a = CHR ''/'' then a @ b
      else a @ ''/'' @ b)"

text \<open>
  From \<open>glob\<close>: \<open>has_magic\<close> (one of the characters \<open>*\<close>, \<open>?\<close>, \<open>[\<close> occurs) and \<open>_ishidden\<close>
  (the name starts with a dot). \<open>ends_with\<close> is what \<open>fnmatch\<close> tests for a pattern that is
  a star followed by literal characters.
\<close>

definition has_magic :: "string \<Rightarrow> bool" where
  "has_magic s = list_ex (\<lambda>c. c = CHR ''*'' \<or> c = CHR ''?'' \<or> c = CHR ''['') s"

definition ishidden :: "string \<Rightarrow> bool" where
  "ishidden x = (x \<noteq> [] \<and> hd x = CHR ''.'')"

definition ends_with :: "string \<Rightarrow> string \<Rightarrow> bool" where
  "ends_with suf x = (length suf \<le> length x \<and> drop (length x - length suf) x = suf)"

text \<open>\<open>list.index(x)\<close>: the first position of \<open>x\<close>, \<open>None\<close> where Python raises \<open>ValueError\<close>.\<close>

fun list_index :: "'a list \<Rightarrow> 'a \<Rightarrow> nat option" where
  "list_index [] x = None"
| "list_index (y # ys) x =
     (if y = x then Some 0 else map_option Suc (list_index ys x))"

text \<open>
  \<open>xs[i]\<close>: a negative index counts from the end; \<open>None\<close> where Python raises
  \<open>IndexError\<close>.
\<close>

definition list_get :: "'a list \<Rightarrow> int \<Rightarrow> 'a option" where
  "list_get xs i =
     (if 0 \<le> i \<and> i < int (length xs) then Some (xs ! nat i)
      else if i < 0 \<and> - int (length xs) \<le> i then Some (xs ! nat (int (length xs) + i))
      else None)"

subsection \<open>Exceptions, log records, pixmaps\<close>

datatype exn =
    AttributeError
  | ValueError
  | IndexError
  | UnidentifiedImageError
  | FileNotFoundError
  | OSError

text \<open>
  One constructor for each \<open>ascvLogger\<close> call of the embedded methods, with the values its
  f-string interpolates.
\<close>

datatype level = DEBUG | INFO

datatype msg =
    OpenedImage string
  | ImageDirPath string
  | DirPaths string string
  | DirPathNotBlank
  | DirPathsDiffer
  | DirPathsSame
  | DirPathBlank
  | ImgFilePathEmpty
  | OpenedDir string
  | NewDirPathBlank
  | ListNotEmpty
  | ListDump "string list"
  | ListLength nat
  | SettingList
  | ListEmpty
  | ShowingPrev int
  | ShowingNext int

text \<open>
  A \<open>QPixmap\<close> is kept by the file it was loaded from and the box and transformation it
  was scaled with (always \<open>KeepAspectRatio\<close>): \<open>FromImage p\<close> is the image file \<open>p\<close> itself,
  \<open>FromThumb c\<close> the scratch thumbnail file, \<open>c\<close> naming the image whose thumbnail the
  file held when it was read (\<open>None\<close>: the file held no image).
\<close>

datatype pix_source = FromImage string | FromThumb "string option"

datatype transform = FastTransformation | SmoothTransformation

record pixmap =
  source :: pix_source
  boxW :: int
  boxH :: int
  mode :: transform

subsection \<open>The world outside and the state of \<open>MainUi\<close>\<close>

text \<open>
  What lies outside: the file system, the images and the Unicode tables.
  \<^item> \<open>listdir d\<close>: the names in directory \<open>d\<close> in the order \<open>os.scandir\<close> yields them, empty
    when \<open>d\<close> cannot be listed (\<open>glob\<close> swallows the \<open>OSError\<close>);
  \<^item> \<open>other_glob\<close>: what \<open>glob.glob\<close> returns for a pattern of another shape than those
    modelled below (a directory part with wildcards, which makes \<open>glob\<close> walk the tree);
  \<^item> \<open>unicode_lower\<close>: \<open>str.lower\<close> on a string with characters beyond ASCII;
  \<^item> \<open>Image_open\<close>: \<open>PIL.Image.open\<close> followed by \<open>.size\<close> (line 432 and 433), or the
    exception it raises;
  \<^item> \<open>thumbnail\<close>: the exception \<open>im.thumbnail((500, 500))\<close> raises (line 437; it loads the
    pixel data, so a truncated file fails here), if any;
  \<^item> \<open>Image_save\<close>: the exception \<open>imThumb.save\<close> raises (line 440), if any, and whether
    the scratch file is then as it was before (\<open>True\<close>) or holds no image any more;
  \<^item> \<open>getmtime\<close>: the modification time line 445 formats, or the exception it raises.
\<close>

record world =
  listdir :: "string \<Rightarrow> string list"
  other_glob :: "string \<Rightarrow> string list"
  unicode_lower :: "string \<Rightarrow> string"
  Image_open :: "string \<Rightarrow> exn + int \<times> int"
  thumbnail :: "string \<Rightarrow> exn option"
  Image_save :: "string \<Rightarrow> (exn \<times> bool) option"
  getmtime :: "string \<Rightarrow> exn + int"

text \<open>\<open>str.lower\<close>: on ASCII text character by character, else by the Unicode tables.\<close>

definition str_lower :: "world \<Rightarrow> string \<Rightarrow> string" where
  "str_lower w s = (if is_ascii s then map char_lower s else unicode_lower w s)"

text \<open>
  \<open>glob.glob(pathname)\<close> for a pattern whose last component is a star followed by literal
  characters and whose directory part has no wildcard, which is what line 535 passes
  unless \<open>dirPath\<close> itself has one: the names of the directory that are not hidden and end
  with the literal characters, in the order of the listing, each joined to the directory
  part.
\<close>

definition glob_glob :: "world \<Rightarrow> string \<Rightarrow> string list" where
  "glob_glob w pathname =
     (case path_split pathname of
        (dirname, pat) \<Rightarrow>
          (case pat of
             [] \<Rightarrow> other_glob w pathname
           | c # suf \<Rightarrow>
               if c = CHR ''*'' \<and> \<not> has_magic suf \<and> dirname \<noteq> [] \<and> \<not> has_magic dirname
               then map (path_join dirname)
                      (filter (\<lambda>x. \<not> ishidden x \<and> ends_with suf x) (listdir w dirname))
               else other_glob w pathname))"

text \<open>
  The attributes of \<open>MainUi\<close> (\<open>dirPath'\<close> and \<open>dirImageList'\<close> stand for \<open>dirPath_\<close> and
  \<open>dirImageList_\<close>), the widgets the methods write, the timer as the time of its next
  timeout (\<open>None\<close>: not active), the clock of the event loop, the scratch thumbnail files
  (path to the image they were made from) and the patterns passed to \<open>glob.glob\<close> so far.
\<close>

record ui =
  dirPath :: string
  imgFilePath :: string
  dirPath' :: "string option"
  dirImageList' :: "string list option"
  dirImageList :: "string list option"
  imageNumber :: "int option"
  imTOut :: "string option"
  imWidth :: "int option"
  mwWidth :: "int option"
  mwHeight :: "int option"
  labelGeometry :: "int \<times> int"
  labelPixmap :: "pixmap option"
  fileLabel :: "string option"
  dateModifiedLabel :: "int option"
  dimensionsLabel :: "(int \<times> int) option"
  navButtonBack :: bool
  navButtonForw :: bool
  bottomButtonCopyDetails :: bool
  timer :: "nat option"
  now :: nat
  thumbnails :: "string \<Rightarrow> string option"
  globCalls :: "string list"
  logged :: "(level \<times> msg) list"

type_synonym outcome = "exn \<times> ui + ui"

text \<open>The state a call leaves behind, however it ends, and the exception it raised.\<close>

definition final :: "outcome \<Rightarrow> ui" where
  "final r = (case r of Inl (e, s) \<Rightarrow> s | Inr s \<Rightarrow> s)"

definition raised :: "outcome \<Rightarrow> exn option" where
  "raised r = (case r of Inl (e, s) \<Rightarrow> Some e | Inr s \<Rightarrow> None)"

definition log_call :: "level \<Rightarrow> msg \<Rightarrow> ui \<Rightarrow> ui" where
  "log_call l m s = s\<lparr>logged := logged s @ [(l, m)]\<rparr>"

text \<open>\<open>__init__\<close>: both paths blank, the three actions disabled, the timer created idle.\<close>

definition init :: "int \<times> int \<Rightarrow> ui" where
  "init g =
     \<lparr>dirPath = [], imgFilePath = [], dirPath' = None, dirImageList' = None,
      dirImageList = None, imageNumber = None, imTOut = None, imWidth = None,
      mwWidth = None, mwHeight = None, labelGeometry = g, labelPixmap = None,
      fileLabel = None, dateModifiedLabel = None, dimensionsLabel = None,
      navButtonBack = False, navButtonForw = False, bottomButtonCopyDetails = False,
      timer = None, now = 0, thumbnails = (\<lambda>p. None), globCalls = [], logged = []\<rparr>"

subsection \<open>Rendering: \<open>updateFunction\<close> and \<open>updateTimerFunc\<close>\<close>

definition thumb_path :: string where
  "thumb_path = ''data/user/temp/thumbnails/tn_current-thumb.png''"

text \<open>
  \<open>updateFunction(i)\<close> (lines 416 to 466). The viewport size is read first, whatever \<open>i\<close>
  is. With \<open>i = 0\<close> the image is opened with PIL, its thumbnail is made and saved to the
  scratch file and shown, the modification time is read, the detail labels are set, and
  the label ends up with the full image, smoothly scaled; opening, making the thumbnail,
  saving it and reading the time can each raise, after what was written before them.
  With \<open>i = 1\<close> the timer is started unless it is active, then the label gets the scratch
  thumbnail, scaled fast; \<open>self.imTOut\<close> is read after the timer was started.
\<close>

definition updateFunction :: "world \<Rightarrow> int \<Rightarrow> ui \<Rightarrow> outcome" where
  "updateFunction w i s0 =
     (let mw = fst (labelGeometry s0);
          mh = snd (labelGeometry s0);
          s1 = s0\<lparr>mwWidth := Some mw, mwHeight := Some mh\<rparr>
      in if imgFilePath s1 \<noteq> [] then
           if i = 0 then
             (case Image_open w (imgFilePath s1) of
                Inl e \<Rightarrow> Inl (e, s1)
              | Inr (imW, imHeight) \<Rightarrow>
                  (let s2 = s1\<lparr>imWidth := Some imW\<rparr>;
                       imName = basename (imgFilePath s2)
                   in case thumbnail w (imgFilePath s2) of
                        Some e \<Rightarrow> Inl (e, s2)
                      | None \<Rightarrow>
                          (let s3 = s2\<lparr>imTOut := Some thumb_path\<rparr>
                           in case Image_save w (imgFilePath s3) of
                                Some (e, intact) \<Rightarrow>
                                  Inl (e, if intact then s3
                                          else s3\<lparr>thumbnails :=
                                                 (thumbnails s3)(thumb_path := None)\<rparr>)
                              | None \<Rightarrow>
                                  (let s4 = s3\<lparr>thumbnails :=
                                              (thumbnails s3)(thumb_path \<mapsto> imgFilePath s3)\<rparr>;
                                       s5 = s4\<lparr>labelPixmap := Some
                                              \<lparr>source = FromThumb (thumbnails s4 thumb_path),
                                               boxW = mw, boxH = mh,
                                               mode = SmoothTransformation\<rparr>\<rparr>
                                   in case getmtime w (imgFilePath s5) of
                                        Inl e \<Rightarrow> Inl (e, s5)
                                      | Inr dateModified \<Rightarrow>
                                          (let s6 = s5\<lparr>fileLabel := Some imName,
                                                      dateModifiedLabel := Some dateModified,
                                                      dimensionsLabel := Some (imW, imHeight)\<rparr>
                                           in Inr (s6\<lparr>labelPixmap := Some
                                                     \<lparr>source = FromImage (imgFilePath s6),
                                                      boxW = mw, boxH = mh,
                                                      mode = SmoothTransformation\<rparr>\<rparr>))))))
           else if i = 1 then
             (let s2 = (if timer s1 = None then s1\<lparr>timer := Some (now s1 + 250)\<rparr> else s1)
              in case imTOut s2 of
                   None \<Rightarrow> Inl (AttributeError, s2)
                 | Some f \<Rightarrow>
                     Inr (s2\<lparr>labelPixmap := Some
                            \<lparr>source = FromThumb (thumbnails s2 f), boxW = mw,
                             boxH = mh, mode = FastTransformation\<rparr>\<rparr>))
           else Inr s1
         else Inr s1)"

text \<open>
  \<open>updateTimerFunc\<close> (lines 468 to 472), the slot of the timer's \<open>timeout\<close>: the full image
  of the path selected now, smoothly scaled to the last viewport size read; then the timer
  is stopped.
\<close>

definition updateTimerFunc :: "ui \<Rightarrow> outcome" where
  "updateTimerFunc s =
     (case mwWidth s of
        None \<Rightarrow> Inl (AttributeError, s)
      | Some mw \<Rightarrow>
          (case mwHeight s of
             None \<Rightarrow> Inl (AttributeError, s)
           | Some mh \<Rightarrow>
               Inr (s\<lparr>labelPixmap := Some
                        \<lparr>source = FromImage (imgFilePath s), boxW = mw, boxH = mh,
                         mode = SmoothTransformation\<rparr>,
                      timer := None\<rparr>)))"

subsection \<open>The image list: \<open>dirMakeImageList\<close>, \<open>openImage\<close>, \<open>openDir\<close>\<close>

definition fileTypes :: "string list" where
  "fileTypes = [''*.png'', ''*.jpg'', ''*.jpeg'', ''*.bmp'', ''*.gif'']"

text \<open>The five patterns globbed for a directory path, and what the scan collects for them.\<close>

definition patterns :: "string \<Rightarrow> string list" where
  "patterns d = map (\<lambda>files. d @ ''/'' @ files) fileTypes"

definition scan :: "world \<Rightarrow> string \<Rightarrow> string list" where
  "scan w d =
     map (str_replace [CHR 0x5C] ''/'') (concat (map (glob_glob w) (patterns d)))"

text \<open>
  \<open>dirMakeImageList(hasOpenedImage)\<close> (lines 530 to 560): the matches of the five patterns
  in this order, backslashes turned into slashes, sorted by \<open>key=str.lower\<close> (Python's sort
  is stable, as \<open>sort_key\<close> is). Only a list that is not empty is installed; then the index
  is that of the opened image (\<open>list.index\<close> raises \<open>ValueError\<close>) or 0, and the image is
  rendered.
\<close>

definition dirMakeImageList :: "world \<Rightarrow> int \<Rightarrow> ui \<Rightarrow> outcome" where
  "dirMakeImageList w hasOpenedImage s0 =
     (let lst = sort_key (str_lower w) (scan w (dirPath s0));
          s1 = s0\<lparr>dirImageList' := Some lst,
                  globCalls := globCalls s0 @ patterns (dirPath s0)\<rparr>
      in if length lst \<noteq> 0 then
           (let s2 = log_call INFO SettingList
                       (log_call INFO (ListLength (length lst))
                         (log_call DEBUG (ListDump lst)
                           (log_call INFO ListNotEmpty s1)));
                s3 = s2\<lparr>dirImageList := Some lst\<rparr>
            in case (if hasOpenedImage = 1 then list_index lst (imgFilePath s3) else Some 0) of
                 None \<Rightarrow> Inl (ValueError, s3)
               | Some n \<Rightarrow>
                   (let s4 = s3\<lparr>imageNumber := Some (int n)\<rparr>
                    in case list_get lst (int n) of
                         None \<Rightarrow> Inl (IndexError, s4)
                       | Some p \<Rightarrow>
                           (case updateFunction w 0 (s4\<lparr>imgFilePath := p\<rparr>) of
                              Inl x \<Rightarrow> Inl x
                            | Inr s5 \<Rightarrow>
                                Inr (s5\<lparr>navButtonBack := True, navButtonForw := True,
                                       bottomButtonCopyDetails := True\<rparr>))))
         else Inr (log_call INFO ListEmpty s1))"

text \<open>
  The directory of an image as line 484 computes it: the path with every occurrence of
  its basename removed, so it keeps its last slash.
\<close>

definition image_dir :: "string \<Rightarrow> string" where
  "image_dir p = str_replace (basename p) [] p"

text \<open>
  \<open>openImage\<close> (lines 475 to 504); \<open>chosen\<close> is what the file dialog returned, blank when it
  was cancelled. Only a directory that differs from \<open>dirPath\<close>, or a blank \<open>dirPath\<close>,
  makes a new list.
\<close>

definition openImage :: "world \<Rightarrow> string \<Rightarrow> ui \<Rightarrow> outcome" where
  "openImage w chosen s0 =
     (let s1 = s0\<lparr>imgFilePath := chosen\<rparr>
      in if imgFilePath s1 \<noteq> [] then
           (let s2 = log_call INFO (OpenedImage (imgFilePath s1)) s1;
                d = image_dir (imgFilePath s2);
                s3 = s2\<lparr>dirPath' := Some d\<rparr>;
                s4 = log_call INFO (ImageDirPath d) s3;
                s5 = log_call DEBUG (DirPaths (dirPath s4) d) s4
            in if dirPath s5 \<noteq> [] then
                 (let s6 = log_call DEBUG DirPathNotBlank s5
                  in if dirPath s6 \<noteq> d then
                       dirMakeImageList w 1 ((log_call DEBUG DirPathsDiffer s6)\<lparr>dirPath := d\<rparr>)
                     else
                       (let s7 = log_call DEBUG DirPathsSame s6
                        in case dirImageList s7 of
                             None \<Rightarrow> Inl (AttributeError, s7)
                           | Some xs \<Rightarrow>
                               (case list_index xs (imgFilePath s7) of
                                  None \<Rightarrow> Inl (ValueError, s7)
                                | Some n \<Rightarrow> Inr (s7\<lparr>imageNumber := Some (int n)\<rparr>))))
               else dirMakeImageList w 1 ((log_call DEBUG DirPathBlank s5)\<lparr>dirPath := d\<rparr>))
         else Inr (log_call INFO ImgFilePathEmpty s1))"

text \<open>\<open>openDir\<close> (lines 506 to 528); \<open>chosen\<close> is the directory the dialog returned.\<close>

definition openDir :: "world \<Rightarrow> string \<Rightarrow> ui \<Rightarrow> outcome" where
  "openDir w chosen s0 =
     (let s1 = s0\<lparr>dirPath' := Some chosen\<rparr>
      in if chosen \<noteq> [] then
           (let s2 = log_call INFO (OpenedDir chosen) s1;
                s3 = log_call DEBUG (DirPaths (dirPath s2) chosen) s2
            in if dirPath s3 \<noteq> [] then
                 (let s4 = log_call DEBUG DirPathNotBlank s3
                  in if dirPath s4 \<noteq> chosen then
                       dirMakeImageList w 0 ((log_call DEBUG DirPathsDiffer s4)\<lparr>dirPath := chosen\<rparr>)
                     else Inr (log_call DEBUG DirPathsSame s4))
               else dirMakeImageList w 0 ((log_call DEBUG DirPathBlank s3)\<lparr>dirPath := chosen\<rparr>))
         else Inr (log_call INFO NewDirPathBlank s1))"

subsection \<open>Stepping through the list: \<open>prevImage\<close> and \<open>nextImage\<close>\<close>

text \<open>
  Lines 563 to 581. The index is stepped (with the wrap written as the source writes it)
  before the path is read from the list and before the image is rendered, so a raise in
  either leaves the new index behind.
\<close>

definition prevImage :: "world \<Rightarrow> ui \<Rightarrow> outcome" where
  "prevImage w s0 =
     (case imageNumber s0 of
        None \<Rightarrow> Inl (AttributeError, s0)
      | Some n \<Rightarrow>
          (let s1 = log_call DEBUG (ShowingPrev n) s0
           in case dirImageList s1 of
                None \<Rightarrow>
                  (if n \<noteq> 0 then Inl (AttributeError, s1\<lparr>imageNumber := Some (n - 1)\<rparr>)
                   else Inl (AttributeError, s1))
              | Some xs \<Rightarrow>
                  (let k = (if n \<noteq> 0 then n - 1 else int (length xs) - 1);
                       s2 = s1\<lparr>imageNumber := Some k\<rparr>
                   in case list_get xs k of
                        None \<Rightarrow> Inl (IndexError, s2)
                      | Some p \<Rightarrow> updateFunction w 0 (s2\<lparr>imgFilePath := p\<rparr>))))"

definition nextImage :: "world \<Rightarrow> ui \<Rightarrow> outcome" where
  "nextImage w s0 =
     (case imageNumber s0 of
        None \<Rightarrow> Inl (AttributeError, s0)
      | Some n \<Rightarrow>
          (let s1 = log_call DEBUG (ShowingNext n) s0
           in case dirImageList s1 of
                None \<Rightarrow> Inl (AttributeError, s1)
              | Some xs \<Rightarrow>
                  (let k = (if n \<noteq> int (length xs) - 1 then n + 1 else 0);
                       s2 = s1\<lparr>imageNumber := Some k\<rparr>
                   in case list_get xs k of
                        None \<Rightarrow> Inl (IndexError, s2)
                      | Some p \<Rightarrow> updateFunction w 0 (s2\<lparr>imgFilePath := p\<rparr>))))"

subsection \<open>The event loop: resize events and the timer\<close>

text \<open>
  Line 397 wraps the label's \<open>resizeEvent\<close>: every resize calls \<open>updateFunction(1)\<close> with
  the new geometry in place. Line 394 connects the timer's \<open>timeout\<close> to
  \<open>updateTimerFunc\<close>. The timer is not single-shot: at a timeout Qt sets it for its
  interval again (250, the only interval \<open>start\<close> is ever given), then runs the slot.
  An exception in a handler goes to \<open>except_hook\<close> (line 686) and the loop goes on.

  \<open>run_until t\<close> delivers the timeouts due up to time \<open>t\<close> and moves the clock there;
  \<open>run\<close> delivers resize events, each with its time and the new geometry. Both keep a
  trace: for every run of the slot its time and the label's pixmap before and after.
\<close>

type_synonym trace = "(nat \<times> pixmap option \<times> pixmap option) list"

function run_until :: "nat \<Rightarrow> ui \<times> trace \<Rightarrow> ui \<times> trace" where
  "run_until t (s, tr) =
     (case timer s of
        None \<Rightarrow> (s\<lparr>now := t\<rparr>, tr)
      | Some d \<Rightarrow>
          if d \<le> t then
            (let s' = final (updateTimerFunc (s\<lparr>now := d, timer := Some (d + 250)\<rparr>))
             in run_until t (s', tr @ [(d, labelPixmap s, labelPixmap s')]))
          else (s\<lparr>now := t\<rparr>, tr))"
  by pat_completeness auto
termination
proof (relation "measure (\<lambda>(t, s, tr). case timer s of None \<Rightarrow> 0 | Some d \<Rightarrow> Suc t - d)")
  show "wf (measure (\<lambda>(t, s, tr). case timer s of None \<Rightarrow> 0 | Some d \<Rightarrow> Suc t - d))"
    by simp
next
  fix t :: nat and s :: ui and tr :: trace and d s'
  assume a: "timer s = Some d" "d \<le> t"
    and s': "s' = final (updateTimerFunc (s\<lparr>now := d, timer := Some (d + 250)\<rparr>))"
  have "timer s' = None \<or> timer s' = Some (d + 250)"
    unfolding s' by (simp add: updateTimerFunc_def final_def split: option.splits)
  then show "((t, s', tr @ [(d, labelPixmap s, labelPixmap s')]), (t, s, tr))
      \<in> measure (\<lambda>(t, s, tr). case timer s of None \<Rightarrow> 0 | Some d \<Rightarrow> Suc t - d)"
    using a by auto
qed

declare run_until.simps [simp del]

fun run :: "world \<Rightarrow> (nat \<times> int \<times> int) list \<Rightarrow> ui \<times> trace \<Rightarrow> ui \<times> trace" where
  "run w [] c = c"
| "run w ((t, g) # es) c =
     (case run_until t c of
        (s, tr) \<Rightarrow> run w es (final (updateFunction w 1 (s\<lparr>labelGeometry := g\<rparr>)), tr))"

subsection \<open>Words of the specification\<close>

text \<open>
  The specification's supported extensions, and a name that carries one of them. The
  directory whose names a scan of \<open>dirPath = d\<close> lists is the directory part of the
  patterns \<open>d/*.png\<close> and so on.
\<close>

definition extensions :: "string list" where
  "extensions = [''.png'', ''.jpg'', ''.jpeg'', ''.bmp'', ''.gif'']"

definition supported :: "string \<Rightarrow> bool" where
  "supported x = list_ex (\<lambda>e. ends_with e x) extensions"

definition listed_dir :: "string \<Rightarrow> string" where
  "listed_dir d = fst (path_split (d @ ''/''))"

text \<open>
  The exception that decoding the image at a path raises, if any: at \<open>Image.open\<close> when
  the file is not an image PIL identifies, or, when it opens, at \<open>thumbnail\<close>, which loads
  the pixel data.
\<close>

definition decode_error :: "world \<Rightarrow> string \<Rightarrow> exn option" where
  "decode_error w p = (case Image_open w p of Inl e \<Rightarrow> Some e | Inr d \<Rightarrow> thumbnail w p)"

text \<open>
  What is displayed and what redraws it: the label's pixmap, the detail labels, the
  scratch thumbnail files, \<open>imTOut\<close> and the timer of \<open>s'\<close> are those of \<open>s\<close>.
\<close>

definition display_kept :: "ui \<Rightarrow> ui \<Rightarrow> bool" where
  "display_kept s s' =
     (labelPixmap s' = labelPixmap s \<and> fileLabel s' = fileLabel s
      \<and> dateModifiedLabel s' = dateModifiedLabel s \<and> dimensionsLabel s' = dimensionsLabel s
      \<and> thumbnails s' = thumbnails s \<and> imTOut s' = imTOut s \<and> timer s' = timer s)"

subsection \<open>A directory to run the methods on\<close>

text \<open>
  The directory \<open>/pics\<close> holds, in this order, \<open>b.png\<close>, \<open>B.png\<close> (truncated: it opens, but
  its pixel data cannot be loaded), \<open>notes.txt\<close>, \<open>a.jpg\<close>, the hidden \<open>.thumb.png\<close> and
  \<open>C.gif\<close> (which PIL cannot identify); every other directory is empty. \<open>opened\<close> is the
  application after \<open>/pics/a.jpg\<close> was opened in a fresh window.
\<close>

definition pics :: world where
  "pics =
     \<lparr>listdir = (\<lambda>d.
        if d = ''/pics''
        then [''b.png'', ''B.png'', ''notes.txt'', ''a.jpg'', ''.thumb.png'', ''C.gif'']
        else []),
      other_glob = (\<lambda>pat. []),
      unicode_lower = (\<lambda>s. s),
      Image_open = (\<lambda>p.
        if p = ''/pics/C.gif'' then Inl UnidentifiedImageError else Inr (1600, 1200)),
      thumbnail = (\<lambda>p. if p = ''/pics/B.png'' then Some OSError else None),
      Image_save = (\<lambda>p. None),
      getmtime = (\<lambda>p. Inr 0)\<rparr>"

definition opened :: ui where
  "opened = final (openImage pics ''/pics/a.jpg'' (init (800, 600)))"

text \<open>
  The same state written out, and the state with the last image of the list selected.
\<close>

definition shown :: ui where
  "shown =
     \<lparr>dirPath = ''/pics/'', imgFilePath = ''/pics/a.jpg'', dirPath' = Some ''/pics/'',
      dirImageList' = Some [''/pics/a.jpg'', ''/pics/b.png'', ''/pics/B.png'', ''/pics/C.gif''],
      dirImageList = Some [''/pics/a.jpg'', ''/pics/b.png'', ''/pics/B.png'', ''/pics/C.gif''],
      imageNumber = Some 0, imTOut = Some thumb_path, imWidth = Some 1600,
      mwWidth = Some 800, mwHeight = Some 600, labelGeometry = (800, 600),
      labelPixmap = Some \<lparr>source = FromImage ''/pics/a.jpg'', boxW = 800, boxH = 600,
                             mode = SmoothTransformation\<rparr>,
      fileLabel = Some ''a.jpg'', dateModifiedLabel = Some 0,
      dimensionsLabel = Some (1600, 1200),
      navButtonBack = True, navButtonForw = True, bottomButtonCopyDetails = True,
      timer = None, now = 0,
      thumbnails = (\<lambda>p. None)(thumb_path \<mapsto> ''/pics/a.jpg''),
      globCalls = patterns ''/pics/'',
      logged = [(INFO, OpenedImage ''/pics/a.jpg''), (INFO, ImageDirPath ''/pics/''),
                (DEBUG, DirPaths [] ''/pics/''), (DEBUG, DirPathBlank), (INFO, ListNotEmpty),
                (DEBUG, ListDump [''/pics/a.jpg'', ''/pics/b.png'', ''/pics/B.png'',
                                  ''/pics/C.gif'']),
                (INFO, ListLength 4), (INFO, SettingList)]\<rparr>"

definition at_last :: ui where
  "at_last = shown\<lparr>imageNumber := Some 3, imgFilePath := ''/pics/C.gif''\<rparr>"

text \<open>
  The same application with \<open>dirPath\<close> moved to a directory without images, and a fresh
  window with \<open>dirPath\<close> set to \<open>/pics/\<close>.
\<close>

definition elsewhere :: ui where
  "elsewhere = shown\<lparr>dirPath := ''/other/''\<rparr>"

definition fresh_pics :: ui where
  "fresh_pics = (init (800, 600))\<lparr>dirPath := ''/pics/''\<rparr>"

text \<open>
  The application while \<open>/pics/a.jpg\<close> is shown and the label was resized at time 100: the
  timer is pending.
\<close>

definition resizing :: ui where
  "resizing = final (updateFunction pics 1 (shown\<lparr>labelGeometry := (400, 300), now := 100\<rparr>))"

text \<open>The application after the directory \<open>/pics\<close> was opened in a fresh window.\<close>

definition browsed :: ui where
  "browsed = final (openDir pics ''/pics'' (init (800, 600)))"

section \<open>Basic facts\<close>

lemma final_simps [simp]: "final (Inl (e, s)) = s" "final (Inr s) = s"
  by (simp_all add: final_def)

lemma raised_simps [simp]: "raised (Inl (e, s)) = Some e" "raised (Inr s) = None"
  by (simp_all add: raised_def)

subsection \<open>The directory \<open>/pics\<close>\<close>

lemma pics_scan:
  "sort_key (str_lower pics) (scan pics ''/pics/'')
     = [''/pics/a.jpg'', ''/pics/b.png'', ''/pics/B.png'', ''/pics/C.gif'']"
  by code_simp

lemma image_dir_a: "image_dir ''/pics/a.jpg'' = ''/pics/''"
  by code_simp

lemma basename_a: "basename ''/pics/a.jpg'' = ''a.jpg''"
  by code_simp

lemma scan_pics:
  "scan pics ''/pics/'' = [''/pics/b.png'', ''/pics/B.png'', ''/pics/a.jpg'', ''/pics/C.gif'']"
  by code_simp

lemma scan_other: "scan pics ''/other/'' = []"
  by code_simp

lemma image_dir_b: "image_dir ''/pics/b.png'' = ''/pics/''"
  by code_simp

lemma image_dir_x: "image_dir ''/pics/x.txt'' = ''/pics/''"
  by code_simp

lemma image_dir_other: "image_dir ''/other/x.txt'' = ''/other/''"
  by code_simp

text \<open>Opening \<open>/pics/a.jpg\<close> in a fresh window gives the state written out above.\<close>

lemma opened_shown: "opened = shown"
  by (simp add: opened_def openImage_def init_def log_call_def Let_def image_dir_a
      dirMakeImageList_def pics_scan list_get_def updateFunction_def basename_a shown_def)
     (simp add: pics_def basename_a)

lemma resizing_fields:
  "timer resizing = Some 350" "imgFilePath resizing = ''/pics/a.jpg''"
  "imageNumber resizing = Some 0"
  "dirImageList resizing
     = Some [''/pics/a.jpg'', ''/pics/b.png'', ''/pics/B.png'', ''/pics/C.gif'']"
  "mwWidth resizing = Some 400" "mwHeight resizing = Some 300"
  "labelPixmap resizing
     = Some \<lparr>source = FromThumb (Some ''/pics/a.jpg''), boxW = 400, boxH = 300,
              mode = FastTransformation\<rparr>"
  by (simp_all add: resizing_def updateFunction_def Let_def shown_def)

subsection \<open>\<open>list.index\<close>\<close>

lemma list_index_None: "list_index xs x = None \<longleftrightarrow> x \<notin> set xs"
  by (induction xs) auto

lemma list_index_first:
  "list_index xs x = Some n \<Longrightarrow> n < length xs \<and> xs ! n = x \<and> (\<forall>m<n. xs ! m \<noteq> x)"
proof (induction xs arbitrary: n)
  case Nil
  then show ?case by simp
next
  case (Cons y ys)
  show ?case
  proof (cases "y = x")
    case True
    with Cons.prems show ?thesis by simp
  next
    case False
    with Cons.prems obtain k where k: "list_index ys x = Some k" "n = Suc k"
      by auto
    from Cons.IH [OF k(1)] False k(2) show ?thesis
      by (auto simp: nth_Cons split: nat.splits)
  qed
qed

subsection \<open>What rendering leaves alone\<close>

lemma updateFunction_keeps:
  "imageNumber (final (updateFunction w i s)) = imageNumber s"
  "dirImageList (final (updateFunction w i s)) = dirImageList s"
  "imgFilePath (final (updateFunction w i s)) = imgFilePath s"
  "dirPath (final (updateFunction w i s)) = dirPath s"
  "globCalls (final (updateFunction w i s)) = globCalls s"
  "logged (final (updateFunction w i s)) = logged s"
  "now (final (updateFunction w i s)) = now s"
  "labelGeometry (final (updateFunction w i s)) = labelGeometry s"
  by (simp_all add: updateFunction_def final_def Let_def
      split: sum.splits prod.splits option.splits)

lemma updateFunction_Inl:
  assumes "updateFunction w i s = Inl (e, s')"
  shows "dirImageList s' = dirImageList s" "imageNumber s' = imageNumber s"
    "imgFilePath s' = imgFilePath s" "globCalls s' = globCalls s" "logged s' = logged s"
    "dirPath s' = dirPath s"
  using updateFunction_keeps [of w i s] assms by simp_all

lemma updateFunction_Inr:
  assumes "updateFunction w i s = Inr s'"
  shows "dirImageList s' = dirImageList s" "imageNumber s' = imageNumber s"
    "imgFilePath s' = imgFilePath s" "globCalls s' = globCalls s" "logged s' = logged s"
    "dirPath s' = dirPath s"
  using updateFunction_keeps [of w i s] assms by simp_all

lemma updateFunction_timer0: "timer (final (updateFunction w 0 s)) = timer s"
  by (simp add: updateFunction_def Let_def split: sum.splits prod.splits option.splits)

lemma updateFunction0_timer:
  "updateFunction w 0 s = Inl (e, s') \<Longrightarrow> timer s' = timer s"
  "updateFunction w 0 s = Inr s' \<Longrightarrow> timer s' = timer s"
  using updateFunction_timer0 [of w s] by simp_all

text \<open>
  A decoding failure leaves \<open>updateFunction(0)\<close> before anything is displayed: only the
  viewport size and, when the file opened, \<open>imWidth\<close> were written.
\<close>

lemma decode_failure:
  assumes "imgFilePath s \<noteq> []" and "decode_error w (imgFilePath s) = Some e"
  shows "raised (updateFunction w 0 s) = Some e"
    and "display_kept s (final (updateFunction w 0 s))"
  using assms
  by (auto simp: updateFunction_def decode_error_def display_kept_def Let_def
      split: sum.splits option.splits prod.splits)

lemma raised_Some: "raised r = Some e \<Longrightarrow> r = Inl (e, final r)"
  by (cases r) (auto simp: raised_def final_def)

lemma select_undecodable:
  assumes "p \<noteq> []" and "decode_error w p = Some e"
    and "labelPixmap s' = labelPixmap s" and "fileLabel s' = fileLabel s"
    and "dateModifiedLabel s' = dateModifiedLabel s" and "dimensionsLabel s' = dimensionsLabel s"
    and "thumbnails s' = thumbnails s" and "imTOut s' = imTOut s" and "timer s' = timer s"
  obtains s'' where "updateFunction w 0 (s'\<lparr>imgFilePath := p\<rparr>) = Inl (e, s'')"
    and "display_kept s s''" and "imgFilePath s'' = p"
    and "imageNumber s'' = imageNumber s'" and "dirImageList s'' = dirImageList s'"
proof -
  let ?s = "s'\<lparr>imgFilePath := p\<rparr>"
  let ?f = "final (updateFunction w 0 ?s)"
  have a: "imgFilePath ?s \<noteq> []" "decode_error w (imgFilePath ?s) = Some e"
    using assms(1,2) by simp_all
  have 1: "updateFunction w 0 ?s = Inl (e, ?f)"
    using decode_failure(1) [OF a] by (rule raised_Some)
  have 2: "display_kept s ?f"
    using decode_failure(2) [OF a] assms(3-9) by (simp add: display_kept_def)
  have 3: "imgFilePath ?f = p" "imageNumber ?f = imageNumber s'"
    "dirImageList ?f = dirImageList s'"
    by (simp_all add: updateFunction_keeps)
  from that [OF 1 2 3] show thesis .
qed


subsection \<open>What \<open>glob\<close> lists\<close>

lemma basename_append:
  assumes "CHR ''/'' \<notin> set t"
  shows "basename (d @ ''/'' @ t) = t"
proof -
  have all: "\<forall>x\<in>set (rev t). x \<noteq> CHR ''/''"
    using assms by auto
  have "takeWhile (\<lambda>c. c \<noteq> CHR ''/'') (rev t @ CHR ''/'' # rev d) = rev t"
    using all by (simp add: takeWhile_tail)
  then show ?thesis by (simp add: basename_def)
qed

lemma strip_head:
  "(if h \<noteq> [] \<and> \<not> list_all (\<lambda>c. c = CHR ''/'') h
    then rev (dropWhile (\<lambda>c. c = CHR ''/'') (rev h)) else h) \<noteq> []" if "h \<noteq> []"
  using that by (auto simp: dropWhile_eq_Nil_conv list_all_iff)

lemma path_split_pattern:
  assumes "CHR ''/'' \<notin> set t"
  shows "path_split (d @ ''/'' @ t) = (listed_dir d, t)"
proof -
  have b: "basename (d @ ''/'' @ t) = t" using assms by (rule basename_append)
  have b0: "basename (d @ ''/'') = []" using basename_append [of "[]" d] by simp
  have h: "take (length (d @ ''/'' @ t) - length t) (d @ ''/'' @ t) = d @ ''/''"
    by simp
  have h0: "take (length (d @ ''/'') - length ([]::string)) (d @ ''/'') = d @ ''/''"
    by simp
  have l: "listed_dir d
      = (if d @ ''/'' \<noteq> [] \<and> \<not> list_all (\<lambda>c. c = CHR ''/'') (d @ ''/'')
         then rev (dropWhile (\<lambda>c. c = CHR ''/'') (rev (d @ ''/''))) else d @ ''/'')"
    unfolding listed_dir_def path_split_def Let_def b0 h0 by simp
  show ?thesis
    unfolding path_split_def Let_def b h l by simp
qed

lemma listed_dir_eq:
  "listed_dir d
      = (if \<not> list_all (\<lambda>c. c = CHR ''/'') (d @ ''/'')
         then rev (dropWhile (\<lambda>c. c = CHR ''/'') (rev (d @ ''/''))) else d @ ''/'')"
proof -
  have b0: "basename (d @ ''/'') = []" using basename_append [of "[]" d] by simp
  have h0: "take (length (d @ ''/'') - length ([]::string)) (d @ ''/'') = d @ ''/''"
    by simp
  show ?thesis
    unfolding listed_dir_def path_split_def Let_def b0 h0 by simp
qed

lemma list_ex_dropWhile:
  assumes "\<And>x. P x \<Longrightarrow> \<not> Q x"
  shows "list_ex Q (dropWhile P xs) = list_ex Q xs"
  using assms by (induction xs) auto

lemma has_magic_strip:
  "has_magic (rev (dropWhile (\<lambda>c. c = CHR ''/'') (rev h))) = has_magic h"
proof -
  have "list_ex (\<lambda>c. c = CHR ''*'' \<or> c = CHR ''?'' \<or> c = CHR ''['')
          (dropWhile (\<lambda>c. c = CHR ''/'') (rev h))
        = list_ex (\<lambda>c. c = CHR ''*'' \<or> c = CHR ''?'' \<or> c = CHR ''['') (rev h)"
    by (rule list_ex_dropWhile) auto
  then show ?thesis
    by (simp add: has_magic_def list_ex_iff)
qed

lemma has_magic_listed_dir: "has_magic (listed_dir d) = has_magic d"
proof -
  have "has_magic (d @ ''/'') = has_magic d"
    by (simp add: has_magic_def)
  then show ?thesis
    by (simp add: listed_dir_eq has_magic_strip)
qed

lemma listed_dir_not_Nil: "listed_dir d \<noteq> []"
  by (auto simp: listed_dir_eq dropWhile_eq_Nil_conv list_all_iff)

lemma glob_glob_star:
  assumes "\<not> has_magic d" and "CHR ''/'' \<notin> set suf" and "\<not> has_magic suf"
  shows "glob_glob w (d @ ''/'' @ CHR ''*'' # suf)
           = map (path_join (listed_dir d))
               (filter (\<lambda>x. \<not> ishidden x \<and> ends_with suf x) (listdir w (listed_dir d)))"
proof -
  have "CHR ''/'' \<notin> set (CHR ''*'' # suf)" using assms(2) by simp
  from path_split_pattern [OF this, of d] assms show ?thesis
    by (simp add: glob_glob_def has_magic_listed_dir listed_dir_not_Nil)
qed

lemma scan_listing:
  assumes "\<not> has_magic d"
  shows "scan w d
           = map (\<lambda>x. str_replace [CHR 0x5C] ''/'' (path_join (listed_dir d) x))
               (concat (map (\<lambda>e. filter (\<lambda>x. \<not> ishidden x \<and> ends_with e x)
                                     (listdir w (listed_dir d))) extensions))"
proof -
  have g: "glob_glob w (d @ ''/'' @ CHR ''*'' # suf)
           = map (path_join (listed_dir d))
               (filter (\<lambda>x. \<not> ishidden x \<and> ends_with suf x) (listdir w (listed_dir d)))"
    if "suf \<in> set extensions" for suf
    using that assms by (intro glob_glob_star) (auto simp: extensions_def has_magic_def)
  have p: "patterns d = map (\<lambda>e. d @ ''/'' @ CHR ''*'' # e) extensions"
    by (simp add: patterns_def fileTypes_def extensions_def)
  have "map (glob_glob w) (patterns d)
          = map (\<lambda>e. map (path_join (listed_dir d))
               (filter (\<lambda>x. \<not> ishidden x \<and> ends_with e x) (listdir w (listed_dir d))))
             extensions"
    unfolding p map_map comp_def by (rule map_cong [OF refl]) (use g in simp)
  then show ?thesis
    by (simp add: scan_def map_concat comp_def)
qed

lemma ends_with_tl: "ends_with (c # suf) x \<Longrightarrow> ends_with suf x"
proof -
  assume a: "ends_with (c # suf) x"
  then have l: "Suc (length suf) \<le> length x"
    and d: "drop (length x - Suc (length suf)) x = c # suf"
    by (simp_all add: ends_with_def)
  have "drop (length x - length suf) x = drop 1 (drop (length x - Suc (length suf)) x)"
    using l by (simp add: Suc_diff_Suc)
  also have "\<dots> = suf" by (simp add: d)
  finally show ?thesis using l by (simp add: ends_with_def)
qed

lemma ends_with_same_length:
  "ends_with a x \<Longrightarrow> ends_with b x \<Longrightarrow> length a = length b \<Longrightarrow> a = b"
  by (simp add: ends_with_def)

lemma not_jpeg:
  assumes "ends_with s x" and "length s = 4" and "s \<noteq> ''jpeg''"
  shows "\<not> ends_with ''.jpeg'' x"
proof
  assume "ends_with ''.jpeg'' x"
  then have "ends_with ''jpeg'' x" by (rule ends_with_tl)
  from ends_with_same_length [OF assms(1) this] assms(2,3) show False by simp
qed

lemma one_extension:
  assumes "e \<in> set extensions" and "e' \<in> set extensions"
    and "ends_with e x" and "ends_with e' x"
  shows "e = e'"
proof -
  have e: "(length e = 4 \<and> e \<noteq> ''jpeg'') \<or> e = ''.jpeg''"
    using assms(1) by (auto simp: extensions_def)
  have e': "(length e' = 4 \<and> e' \<noteq> ''jpeg'') \<or> e' = ''.jpeg''"
    using assms(2) by (auto simp: extensions_def)
  from e e' show ?thesis
  proof (elim disjE conjE)
    assume "length e = 4" "length e' = 4"
    then show ?thesis using ends_with_same_length [OF assms(3,4)] by simp
  next
    assume "length e = 4" "e \<noteq> ''jpeg''" "e' = ''.jpeg''"
    then show ?thesis using not_jpeg [OF assms(3)] assms(4) by simp
  next
    assume "e = ''.jpeg''" "length e' = 4" "e' \<noteq> ''jpeg''"
    then show ?thesis using not_jpeg [OF assms(4)] assms(3) by simp
  next
    assume "e = ''.jpeg''" "e' = ''.jpeg''"
    then show ?thesis by simp
  qed
qed

lemma mset_by_extension:
  "mset (concat (map (\<lambda>e. filter (\<lambda>x. V x \<and> ends_with e x) xs) extensions))
     = mset (filter (\<lambda>x. V x \<and> supported x) xs)"
proof (induction xs)
  case Nil
  show ?case by (simp add: extensions_def)
next
  case (Cons x xs)
  have split: "mset (concat (map (\<lambda>e. filter (\<lambda>y. V y \<and> ends_with e y) (x # xs)) es))
      = mset (concat (map (\<lambda>e. filter (\<lambda>y. V y \<and> ends_with e y) xs) es))
        + replicate_mset (length (filter (\<lambda>e. V x \<and> ends_with e x) es)) x" for es
    by (induction es) auto
  have count: "length (filter (\<lambda>e. V x \<and> ends_with e x) extensions)
      = (if V x \<and> supported x then 1 else 0)"
  proof (cases "V x \<and> supported x")
    case False
    then have "filter (\<lambda>e. V x \<and> ends_with e x) extensions = []"
      by (auto simp: supported_def list_ex_iff filter_empty_conv)
    with False show ?thesis by simp
  next
    case True
    then obtain e where e: "e \<in> set extensions" "ends_with e x"
      by (auto simp: supported_def list_ex_iff)
    have "filter (\<lambda>e'. V x \<and> ends_with e' x) extensions = filter (\<lambda>e'. e' = e) extensions"
    proof (rule filter_cong [OF refl])
      fix e' assume "e' \<in> set extensions"
      with True e one_extension [of e' e x] show "(V x \<and> ends_with e' x) = (e' = e)"
        by blast
    qed
    moreover have "length (filter (\<lambda>e'. e' = e) extensions) = 1"
      using e(1) unfolding extensions_def by (elim disjE | simp)+
    ultimately show ?thesis using True by simp
  qed
  show ?case
    unfolding split count using Cons.IH by simp
qed

lemma mset_scan:
  assumes "\<not> has_magic d"
  shows "mset (scan w d)
           = mset (map (\<lambda>x. str_replace [CHR 0x5C] ''/'' (path_join (listed_dir d) x))
                    (filter (\<lambda>x. \<not> ishidden x \<and> supported x) (listdir w (listed_dir d))))"
  unfolding scan_listing [OF assms] mset_map
  by (simp only: mset_by_extension)

lemma scan_not_Nil:
  assumes "\<not> has_magic d"
    and "list_ex (\<lambda>x. \<not> ishidden x \<and> supported x) (listdir w (listed_dir d))"
  shows "scan w d \<noteq> []"
proof
  assume "scan w d = []"
  with mset_scan [OF assms(1), of w]
  have "filter (\<lambda>x. \<not> ishidden x \<and> supported x) (listdir w (listed_dir d)) = []"
    by simp
  with assms(2) show False
    by (auto simp: list_ex_iff filter_empty_conv)
qed


subsection \<open>What the scan installs\<close>

lemma dirMakeImageList_empty:
  assumes "scan w (dirPath s) = []"
  shows "dirMakeImageList w h s
           = Inr (s\<lparr>dirImageList' := Some [],
                    globCalls := globCalls s @ patterns (dirPath s),
                    logged := logged s @ [(INFO, ListEmpty)]\<rparr>)"
  using assms by (simp add: dirMakeImageList_def log_call_def)

lemma dirMakeImageList_list:
  assumes "scan w (dirPath s) \<noteq> []"
  shows "dirImageList (final (dirMakeImageList w h s))
           = Some (sort_key (str_lower w) (scan w (dirPath s)))"
proof -
  have ne: "sort_key (str_lower w) (scan w (dirPath s)) \<noteq> []"
    using assms by (metis length_sort length_0_conv)
  show ?thesis
    using ne
    by (auto simp: dirMakeImageList_def Let_def log_call_def
        updateFunction_Inl updateFunction_Inr split: option.splits sum.splits)
qed

lemma dirMakeImageList_missing:
  assumes "scan w (dirPath s) \<noteq> []" "imgFilePath s \<notin> set (scan w (dirPath s))"
  shows "raised (dirMakeImageList w 1 s) = Some ValueError"
proof -
  have ne: "sort_key (str_lower w) (scan w (dirPath s)) \<noteq> []"
    using assms(1) by (metis length_sort length_0_conv)
  have "list_index (sort_key (str_lower w) (scan w (dirPath s))) (imgFilePath s) = None"
    using assms(2) by (simp add: list_index_None)
  then show ?thesis
    using ne by (simp add: dirMakeImageList_def Let_def log_call_def)
qed

lemma openImage_rescan:
  assumes "p \<noteq> []" and "dirPath s = [] \<or> dirPath s \<noteq> image_dir p"
  shows "openImage w p s
           = dirMakeImageList w 1
               (s\<lparr>imgFilePath := p, dirPath' := Some (image_dir p),
                  logged := logged s
                    @ [(INFO, OpenedImage p), (INFO, ImageDirPath (image_dir p)),
                       (DEBUG, DirPaths (dirPath s) (image_dir p))]
                    @ (if dirPath s = [] then [(DEBUG, DirPathBlank)]
                       else [(DEBUG, DirPathNotBlank), (DEBUG, DirPathsDiffer)]),
                  dirPath := image_dir p\<rparr>)"
  using assms by (cases "dirPath s = []") (simp_all add: openImage_def Let_def log_call_def)

subsection \<open>More about the directory \<open>/pics\<close>\<close>

lemma listed_pics: "listed_dir ''/pics/'' = ''/pics''"
  by code_simp

lemma visible_pics:
  "filter (\<lambda>x. \<not> ishidden x \<and> supported x) (listdir pics ''/pics'')
     = [''b.png'', ''B.png'', ''a.jpg'', ''C.gif'']"
  by code_simp

lemma hidden_thumb: "supported ''.thumb.png''" "ishidden ''.thumb.png''"
  by code_simp+

lemma fresh_pics_list:
  "dirImageList (final (dirMakeImageList pics 0 fresh_pics))
     = Some [''/pics/a.jpg'', ''/pics/b.png'', ''/pics/B.png'', ''/pics/C.gif'']"
proof -
  have d: "dirPath fresh_pics = ''/pics/''"
    by (simp add: fresh_pics_def init_def)
  have ne: "scan pics (dirPath fresh_pics) \<noteq> []"
    by (simp add: d scan_pics)
  show ?thesis
    using dirMakeImageList_list [OF ne, of 0] by (simp add: d pics_scan)
qed


lemma pics_decode:
  "decode_error pics ''/pics/C.gif'' = Some UnidentifiedImageError"
  "decode_error pics ''/pics/B.png'' = Some OSError"
  by (simp_all add: decode_error_def pics_def)


lemma pics_scan_plain:
  "sort_key (str_lower pics) (scan pics ''/pics'')
     = [''/pics/a.jpg'', ''/pics/b.png'', ''/pics/B.png'', ''/pics/C.gif'']"
  by code_simp

lemma scan_pics_plain:
  "scan pics ''/pics'' = [''/pics/b.png'', ''/pics/B.png'', ''/pics/a.jpg'', ''/pics/C.gif'']"
  by code_simp

lemma parent_b: "fst (path_split ''/pics/b.png'') = ''/pics''"
  by code_simp

lemma browsed_fields:
  "dirPath browsed = ''/pics''"
  "dirImageList browsed
     = Some [''/pics/a.jpg'', ''/pics/b.png'', ''/pics/B.png'', ''/pics/C.gif'']"
  "imageNumber browsed = Some 0"
  "imgFilePath browsed = ''/pics/a.jpg''"
  "globCalls browsed = patterns ''/pics''"
  by (simp_all add: browsed_def openDir_def init_def log_call_def Let_def
      dirMakeImageList_def pics_scan_plain list_get_def updateFunction_def)
     (simp_all add: pics_def)

subsection \<open>No method but the two that render for a resize touches the timer\<close>

lemma dirMakeImageList_timer: "timer (final (dirMakeImageList w h s)) = timer s"
  by (auto simp: dirMakeImageList_def Let_def log_call_def updateFunction0_timer
      split: option.splits sum.splits)

lemma openImage_timer: "timer (final (openImage w p s)) = timer s"
  by (simp add: openImage_def Let_def log_call_def dirMakeImageList_timer
      split: option.splits)

lemma openDir_timer: "timer (final (openDir w d s)) = timer s"
  by (simp add: openDir_def Let_def log_call_def dirMakeImageList_timer)

lemma nextImage_timer: "timer (final (nextImage w s)) = timer s"
  by (simp add: nextImage_def Let_def log_call_def updateFunction_timer0
      split: option.splits)

lemma prevImage_timer: "timer (final (prevImage w s)) = timer s"
  by (simp add: prevImage_def Let_def log_call_def updateFunction_timer0
      split: option.splits)

subsection \<open>The index after a step\<close>

lemma nextImage_index:
  assumes "dirImageList s = Some xs" "imageNumber s = Some i"
  shows "imageNumber (final (nextImage w s))
           = Some (if i = int (length xs) - 1 then 0 else i + 1)"
    and "dirImageList (final (nextImage w s)) = Some xs"
  using assms
  by (simp_all add: nextImage_def log_call_def Let_def updateFunction_keeps
      split: option.splits)

lemma prevImage_index:
  assumes "dirImageList s = Some xs" "imageNumber s = Some i"
  shows "imageNumber (final (prevImage w s))
           = Some (if i = 0 then int (length xs) - 1 else i - 1)"
    and "dirImageList (final (prevImage w s)) = Some xs"
  using assms
  by (simp_all add: prevImage_def log_call_def Let_def updateFunction_keeps
      split: option.splits)

subsection \<open>Timeouts and resize events\<close>

lemma run_until_idle: "timer s = None \<Longrightarrow> run_until t (s, tr) = (s\<lparr>now := t\<rparr>, tr)"
  by (subst run_until.simps) simp

lemma run_until_pending:
  "timer s = Some d \<Longrightarrow> t < d \<Longrightarrow> run_until t (s, tr) = (s\<lparr>now := t\<rparr>, tr)"
  by (subst run_until.simps) simp

lemma run_until_due:
  assumes "timer s = Some d" and "d \<le> t" and "mwWidth s = Some a" and "mwHeight s = Some b"
  shows "snd (run_until t (s, tr))
           = tr @ [(d, labelPixmap s,
                    Some \<lparr>source = FromImage (imgFilePath s), boxW = a, boxH = b,
                          mode = SmoothTransformation\<rparr>)]"
    and "timer (fst (run_until t (s, tr))) = None"
    and "labelPixmap (fst (run_until t (s, tr)))
           = Some \<lparr>source = FromImage (imgFilePath s), boxW = a, boxH = b,
                    mode = SmoothTransformation\<rparr>"
    and "imgFilePath (fst (run_until t (s, tr))) = imgFilePath s"
  using assms
  by (subst run_until.simps, simp add: updateTimerFunc_def Let_def run_until_idle)+

lemma resize_with_image:
  assumes "imgFilePath s \<noteq> []" and "imTOut s = Some f"
  shows "timer (final (updateFunction w 1 s))
           = Some (case timer s of None \<Rightarrow> now s + 250 | Some d \<Rightarrow> d)"
    and "imgFilePath (final (updateFunction w 1 s)) = imgFilePath s"
    and "imTOut (final (updateFunction w 1 s)) = Some f"
    and "thumbnails (final (updateFunction w 1 s)) = thumbnails s"
    and "labelPixmap (final (updateFunction w 1 s))
           = Some \<lparr>source = FromThumb (thumbnails s f), boxW = fst (labelGeometry s),
                    boxH = snd (labelGeometry s), mode = FastTransformation\<rparr>"
    and "mwWidth (final (updateFunction w 1 s)) = Some (fst (labelGeometry s))"
    and "mwHeight (final (updateFunction w 1 s)) = Some (snd (labelGeometry s))"
  using assms by (simp_all add: updateFunction_def Let_def split: option.splits)

lemma run_armed:
  assumes "timer s = Some D" and "imgFilePath s \<noteq> []" and "imTOut s = Some f"
    and "\<forall>e\<in>set es. fst e < D"
  shows "snd (run w es (s, tr)) = tr
       \<and> timer (fst (run w es (s, tr))) = Some D
       \<and> imgFilePath (fst (run w es (s, tr))) = imgFilePath s
       \<and> imTOut (fst (run w es (s, tr))) = Some f
       \<and> thumbnails (fst (run w es (s, tr))) = thumbnails s
       \<and> labelPixmap (fst (run w es (s, tr)))
           = (if es = [] then labelPixmap s
              else Some \<lparr>source = FromThumb (thumbnails s f), boxW = fst (snd (last es)),
                         boxH = snd (snd (last es)), mode = FastTransformation\<rparr>)
       \<and> mwWidth (fst (run w es (s, tr)))
           = (if es = [] then mwWidth s else Some (fst (snd (last es))))
       \<and> mwHeight (fst (run w es (s, tr)))
           = (if es = [] then mwHeight s else Some (snd (snd (last es))))"
  using assms
proof (induction es arbitrary: s)
  case Nil
  then show ?case by simp
next
  case (Cons ev es)
  obtain t g where ev: "ev = (t, g)" by (cases ev) auto
  let ?s0 = "s\<lparr>now := t, labelGeometry := g\<rparr>"
  let ?s1 = "final (updateFunction w 1 ?s0)"
  have t: "t < D" using Cons.prems(4) ev by simp
  have step: "run w (ev # es) (s, tr) = run w es (?s1, tr)"
    using Cons.prems(1) t by (simp add: ev run_until_pending)
  have pre: "imgFilePath ?s0 \<noteq> []" "imTOut ?s0 = Some f"
    using Cons.prems by simp_all
  note r = resize_with_image [OF pre, where w = w]
  have s1: "timer ?s1 = Some D" "imgFilePath ?s1 = imgFilePath s" "imTOut ?s1 = Some f"
    "thumbnails ?s1 = thumbnails s"
    "labelPixmap ?s1 = Some \<lparr>source = FromThumb (thumbnails s f), boxW = fst g,
                                boxH = snd g, mode = FastTransformation\<rparr>"
    "mwWidth ?s1 = Some (fst g)" "mwHeight ?s1 = Some (snd g)"
    using r Cons.prems(1) by simp_all
  have "\<forall>e\<in>set es. fst e < D" using Cons.prems(4) by simp
  from Cons.IH [OF s1(1) _ s1(3) this] s1 Cons.prems(2)
  show ?case
    unfolding step by (simp add: ev)
qed

lemma burst:
  assumes "imgFilePath s \<noteq> []" and "imTOut s = Some f" and "timer s = None"
    and "\<forall>e\<in>set es. fst e < t + 250"
  shows "T < t + 250 \<Longrightarrow> snd (run_until T (run w ((t, g) # es) (s, []))) = []"
    and "T < t + 250 \<Longrightarrow> timer (fst (run_until T (run w ((t, g) # es) (s, [])))) = Some (t + 250)"
    and "t + 250 \<le> T \<Longrightarrow> snd (run_until T (run w ((t, g) # es) (s, [])))
           = [(t + 250,
               Some \<lparr>source = FromThumb (thumbnails s f),
                      boxW = fst (snd (last ((t, g) # es))),
                      boxH = snd (snd (last ((t, g) # es))), mode = FastTransformation\<rparr>,
               Some \<lparr>source = FromImage (imgFilePath s),
                      boxW = fst (snd (last ((t, g) # es))),
                      boxH = snd (snd (last ((t, g) # es))), mode = SmoothTransformation\<rparr>)]"
    and "t + 250 \<le> T \<Longrightarrow> timer (fst (run_until T (run w ((t, g) # es) (s, [])))) = None"
    and "t + 250 \<le> T \<Longrightarrow> labelPixmap (fst (run_until T (run w ((t, g) # es) (s, []))))
           = Some \<lparr>source = FromImage (imgFilePath s),
                      boxW = fst (snd (last ((t, g) # es))),
                      boxH = snd (snd (last ((t, g) # es))), mode = SmoothTransformation\<rparr>"
proof -
  let ?s0 = "s\<lparr>now := t, labelGeometry := g\<rparr>"
  let ?s1 = "final (updateFunction w 1 ?s0)"
  let ?R = "run w es (?s1, [])"
  have step: "run w ((t, g) # es) (s, []) = ?R"
    using assms(3) by (simp add: run_until_idle)
  have pre: "imgFilePath ?s0 \<noteq> []" "imTOut ?s0 = Some f"
    using assms by simp_all
  note r = resize_with_image [OF pre, where w = w]
  have s1: "timer ?s1 = Some (t + 250)" "imgFilePath ?s1 = imgFilePath s" "imTOut ?s1 = Some f"
    "thumbnails ?s1 = thumbnails s"
    "labelPixmap ?s1 = Some \<lparr>source = FromThumb (thumbnails s f), boxW = fst g,
                                boxH = snd g, mode = FastTransformation\<rparr>"
    "mwWidth ?s1 = Some (fst g)" "mwHeight ?s1 = Some (snd g)"
    using r assms(3) by simp_all
  from run_armed [OF s1(1) _ s1(3) assms(4), of w "[]"] s1 assms(1)
  have R: "snd ?R = []" "timer (fst ?R) = Some (t + 250)" "imgFilePath (fst ?R) = imgFilePath s"
    "labelPixmap (fst ?R)
       = Some \<lparr>source = FromThumb (thumbnails s f), boxW = fst (snd (last ((t, g) # es))),
                boxH = snd (snd (last ((t, g) # es))), mode = FastTransformation\<rparr>"
    "mwWidth (fst ?R) = Some (fst (snd (last ((t, g) # es))))"
    "mwHeight (fst ?R) = Some (snd (snd (last ((t, g) # es))))"
    by simp_all
  have Req: "?R = (fst ?R, [])" using R(1) by (metis prod.collapse)
  show "snd (run_until T (run w ((t, g) # es) (s, []))) = []" if "T < t + 250"
    by (subst step, subst Req) (simp add: run_until_pending [OF R(2) that])
  show "timer (fst (run_until T (run w ((t, g) # es) (s, [])))) = Some (t + 250)" if "T < t + 250"
    by (subst step, subst Req) (simp add: run_until_pending [OF R(2) that] R(2))
  note d = run_until_due [OF R(2) _ R(5) R(6), of T "[]"]
  show "snd (run_until T (run w ((t, g) # es) (s, [])))
           = [(t + 250,
               Some \<lparr>source = FromThumb (thumbnails s f),
                      boxW = fst (snd (last ((t, g) # es))),
                      boxH = snd (snd (last ((t, g) # es))), mode = FastTransformation\<rparr>,
               Some \<lparr>source = FromImage (imgFilePath s),
                      boxW = fst (snd (last ((t, g) # es))),
                      boxH = snd (snd (last ((t, g) # es))), mode = SmoothTransformation\<rparr>)]"
    if "t + 250 \<le> T"
    by (subst step, subst Req) (simp add: d(1) [OF that] R)
  show "timer (fst (run_until T (run w ((t, g) # es) (s, [])))) = None" if "t + 250 \<le> T"
    by (subst step, subst Req) (simp add: d(2) [OF that])
  show "labelPixmap (fst (run_until T (run w ((t, g) # es) (s, []))))
           = Some \<lparr>source = FromImage (imgFilePath s),
                      boxW = fst (snd (last ((t, g) # es))),
                      boxH = snd (snd (last ((t, g) # es))), mode = SmoothTransformation\<rparr>"
    if "t + 250 \<le> T"
    by (subst step, subst Req) (simp add: d(3) [OF that] R)
qed


section \<open>The image list\<close>

text \<open>
  C2 as stated does not hold: a file with a supported extension need not be in the list.
  \<open>/pics\<close> holds the hidden file \<open>.thumb.png\<close>; \<open>glob\<close> leaves names that start with a dot
  out of what \<open>*.png\<close> matches, and the scan does not list it.
\<close>

theorem scan_sorted_stable_counterexample:
  "''.thumb.png'' \<in> set (listdir pics (listed_dir (dirPath fresh_pics)))
   \<and> supported ''.thumb.png''
   \<and> dirImageList (final (dirMakeImageList pics 0 fresh_pics))
       = Some [''/pics/a.jpg'', ''/pics/b.png'', ''/pics/B.png'', ''/pics/C.gif'']
   \<and> ''/pics/.thumb.png''
       \<notin> set [''/pics/a.jpg'', ''/pics/b.png'', ''/pics/B.png'', ''/pics/C.gif'']"
proof -
  have d: "dirPath fresh_pics = ''/pics/''"
    by (simp add: fresh_pics_def init_def)
  have "''.thumb.png'' \<in> set (listdir pics ''/pics'')"
    by (simp add: pics_def)
  then show ?thesis
    by (simp add: d listed_pics hidden_thumb fresh_pics_list)
qed

text \<open>
  C2, amended. For a \<open>dirPath\<close> without the wildcard characters of \<open>glob\<close> (\<open>*\<close>, \<open>?\<close>, \<open>[\<close>)
  whose directory holds a name that is not hidden and ends in one of the five extensions
  (as written, in lower case), the scan installs as the list exactly the names of the
  directory that are not hidden and end in one of the extensions, each as often as the
  directory lists it, joined to the directory and with backslashes written as slashes,
  and nothing else; the list is in non-decreasing order of \<open>str.lower\<close> of the full paths,
  and paths with equal keys keep the order in which the scan enumerated them.
\<close>

theorem scan_sorted_stable:
  assumes "\<not> has_magic (dirPath s)"
    and "list_ex (\<lambda>x. \<not> ishidden x \<and> supported x) (listdir w (listed_dir (dirPath s)))"
  shows "\<exists>L. dirImageList (final (dirMakeImageList w h s)) = Some L
           \<and> mset L
               = mset (map (\<lambda>x. str_replace [CHR 0x5C] ''/''
                                  (path_join (listed_dir (dirPath s)) x))
                        (filter (\<lambda>x. \<not> ishidden x \<and> supported x)
                           (listdir w (listed_dir (dirPath s)))))
           \<and> sorted (map (str_lower w) L)
           \<and> (\<forall>k. filter (\<lambda>p. str_lower w p = k) L
                     = filter (\<lambda>p. str_lower w p = k) (scan w (dirPath s)))"
proof -
  let ?L = "sort_key (str_lower w) (scan w (dirPath s))"
  have "scan w (dirPath s) \<noteq> []"
    using assms by (rule scan_not_Nil)
  then have "dirImageList (final (dirMakeImageList w h s)) = Some ?L"
    by (rule dirMakeImageList_list)
  moreover have "mset ?L
      = mset (map (\<lambda>x. str_replace [CHR 0x5C] ''/'' (path_join (listed_dir (dirPath s)) x))
               (filter (\<lambda>x. \<not> ishidden x \<and> supported x)
                  (listdir w (listed_dir (dirPath s)))))"
    using mset_scan [OF assms(1), of w] by simp
  moreover have "sorted (map (str_lower w) ?L)"
    by (rule sorted_sort_key)
  moreover have "\<forall>k. filter (\<lambda>p. str_lower w p = k) ?L
                     = filter (\<lambda>p. str_lower w p = k) (scan w (dirPath s))"
    by (simp add: sort_key_stable)
  ultimately show ?thesis by blast
qed

theorem scan_sorted_stable_witness:
  "\<not> has_magic (dirPath fresh_pics)
   \<and> filter (\<lambda>x. \<not> ishidden x \<and> supported x) (listdir pics (listed_dir (dirPath fresh_pics)))
       = [''b.png'', ''B.png'', ''a.jpg'', ''C.gif'']
   \<and> dirImageList (final (dirMakeImageList pics 0 fresh_pics))
       = Some [''/pics/a.jpg'', ''/pics/b.png'', ''/pics/B.png'', ''/pics/C.gif'']
   \<and> (\<exists>L. dirImageList (final (dirMakeImageList pics 0 fresh_pics)) = Some L
           \<and> mset L
               = mset (map (\<lambda>x. str_replace [CHR 0x5C] ''/''
                                  (path_join (listed_dir (dirPath fresh_pics)) x))
                        (filter (\<lambda>x. \<not> ishidden x \<and> supported x)
                           (listdir pics (listed_dir (dirPath fresh_pics)))))
           \<and> sorted (map (str_lower pics) L)
           \<and> (\<forall>k. filter (\<lambda>p. str_lower pics p = k) L
                     = filter (\<lambda>p. str_lower pics p = k) (scan pics (dirPath fresh_pics))))"
proof -
  have d: "dirPath fresh_pics = ''/pics/''"
    by (simp add: fresh_pics_def init_def)
  have m: "\<not> has_magic (dirPath fresh_pics)"
    unfolding d by code_simp
  have v: "filter (\<lambda>x. \<not> ishidden x \<and> supported x)
             (listdir pics (listed_dir (dirPath fresh_pics)))
           = [''b.png'', ''B.png'', ''a.jpg'', ''C.gif'']"
    by (simp only: d listed_pics visible_pics)
  have e: "list_ex (\<lambda>x. \<not> ishidden x \<and> supported x)
             (listdir pics (listed_dir (dirPath fresh_pics)))"
  proof -
    have "filter (\<lambda>x. \<not> ishidden x \<and> supported x)
            (listdir pics (listed_dir (dirPath fresh_pics))) \<noteq> []"
      unfolding v by simp
    then show ?thesis
      by (simp add: list_ex_iff filter_empty_conv)
  qed
  from scan_sorted_stable [OF m e, of 0] m v fresh_pics_list show ?thesis
    by blast
qed

text \<open>
  C5. A scan that finds nothing returns normally, leaves the list, the index, the selected
  path and the label as they were, and reports the empty directory as its last log record.
\<close>

theorem empty_rescan:
  assumes "scan w (dirPath s) = []"
  shows "raised (dirMakeImageList w h s) = None
       \<and> dirImageList (final (dirMakeImageList w h s)) = dirImageList s
       \<and> imageNumber (final (dirMakeImageList w h s)) = imageNumber s
       \<and> imgFilePath (final (dirMakeImageList w h s)) = imgFilePath s
       \<and> labelPixmap (final (dirMakeImageList w h s)) = labelPixmap s
       \<and> logged (final (dirMakeImageList w h s)) = logged s @ [(INFO, ListEmpty)]"
  by (simp add: dirMakeImageList_empty [OF assms])

theorem empty_rescan_witness:
  "scan pics (dirPath elsewhere) = []
   \<and> raised (dirMakeImageList pics 0 elsewhere) = None
   \<and> dirImageList (final (dirMakeImageList pics 0 elsewhere))
       = Some [''/pics/a.jpg'', ''/pics/b.png'', ''/pics/B.png'', ''/pics/C.gif'']
   \<and> imageNumber (final (dirMakeImageList pics 0 elsewhere)) = Some 0
   \<and> last (logged (final (dirMakeImageList pics 0 elsewhere))) = (INFO, ListEmpty)"
proof -
  have e: "scan pics (dirPath elsewhere) = []"
    by (simp add: elsewhere_def scan_other)
  from empty_rescan [OF e, of 0] e show ?thesis
    by (simp add: elsewhere_def shown_def)
qed

text \<open>
  Where \<open>dirPath\<close> is, character by character, what line 484 computes for the path (as it
  is after an earlier \<open>openImage\<close>), \<open>openImage\<close> calls \<open>glob.glob\<close> not once and leaves the
  list as it is; when the path is in the list, the index becomes the first position of
  the path in the list.
\<close>

lemma openImage_same_string:
  assumes "p \<noteq> []" and "dirPath s \<noteq> []" and "image_dir p = dirPath s"
    and "dirImageList s = Some xs"
  shows "globCalls (final (openImage w p s)) = globCalls s
       \<and> dirImageList (final (openImage w p s)) = Some xs
       \<and> dirImageList' (final (openImage w p s)) = dirImageList' s
       \<and> (p \<in> set xs \<longrightarrow>
            raised (openImage w p s) = None
            \<and> (\<exists>n. imageNumber (final (openImage w p s)) = Some (int n)
                    \<and> n < length xs \<and> xs ! n = p \<and> (\<forall>m<n. xs ! m \<noteq> p)))"
proof (cases "list_index xs p")
  case None
  then have "p \<notin> set xs" by (simp add: list_index_None)
  with assms None show ?thesis
    by (simp add: openImage_def Let_def log_call_def)
next
  case (Some n)
  from list_index_first [OF Some] assms Some show ?thesis
    by (simp add: openImage_def Let_def log_call_def)
qed

lemma openImage_same_string_example:
  "image_dir ''/pics/b.png'' = dirPath at_last
   \<and> ''/pics/b.png'' \<in> set [''/pics/a.jpg'', ''/pics/b.png'', ''/pics/B.png'', ''/pics/C.gif'']
   \<and> globCalls (final (openImage pics ''/pics/b.png'' at_last)) = globCalls at_last
   \<and> dirImageList (final (openImage pics ''/pics/b.png'' at_last))
       = Some [''/pics/a.jpg'', ''/pics/b.png'', ''/pics/B.png'', ''/pics/C.gif'']
   \<and> raised (openImage pics ''/pics/b.png'' at_last) = None
   \<and> imageNumber (final (openImage pics ''/pics/b.png'' at_last)) = Some 1"
proof -
  have d: "image_dir ''/pics/b.png'' = dirPath at_last"
    by (simp add: image_dir_b at_last_def shown_def)
  have l: "dirImageList at_last
             = Some [''/pics/a.jpg'', ''/pics/b.png'', ''/pics/B.png'', ''/pics/C.gif'']"
    by (simp add: at_last_def shown_def)
  have n: "imageNumber (final (openImage pics ''/pics/b.png'' at_last)) = Some 1"
    by (simp add: openImage_def Let_def log_call_def image_dir_b at_last_def shown_def)
  from openImage_same_string [OF _ _ d l, of pics] d n show ?thesis
    by (simp add: at_last_def shown_def)
qed

text \<open>
  C7 does not hold in the code. After \<open>openDir\<close> stored \<open>/pics\<close>, the directory of
  \<open>/pics/b.png\<close> is the current \<open>dirPath\<close>, but line 484 computes \<open>/pics/\<close> for it, with the
  slash kept, the comparison of line 492 finds the two different, and \<open>openImage\<close> scans
  the directory again: five more calls of \<open>glob.glob\<close>, and \<open>dirPath\<close> replaced.
\<close>

theorem openDir_then_openImage_rescans:
  "dirPath browsed = ''/pics''
   \<and> fst (path_split ''/pics/b.png'') = ''/pics''
   \<and> dirImageList browsed
       = Some [''/pics/a.jpg'', ''/pics/b.png'', ''/pics/B.png'', ''/pics/C.gif'']
   \<and> globCalls browsed = patterns ''/pics''
   \<and> globCalls (final (openImage pics ''/pics/b.png'' browsed))
       = patterns ''/pics'' @ patterns ''/pics/''
   \<and> dirPath (final (openImage pics ''/pics/b.png'' browsed)) = ''/pics/''
   \<and> imageNumber (final (openImage pics ''/pics/b.png'' browsed)) = Some 1"
proof -
  have "globCalls (final (openImage pics ''/pics/b.png'' browsed))
       = patterns ''/pics'' @ patterns ''/pics/''
   \<and> dirPath (final (openImage pics ''/pics/b.png'' browsed)) = ''/pics/''
   \<and> imageNumber (final (openImage pics ''/pics/b.png'' browsed)) = Some 1"
    by (simp add: openImage_def Let_def log_call_def image_dir_b browsed_fields
        dirMakeImageList_def pics_scan list_get_def updateFunction_def)
       (simp add: pics_def)
  then show ?thesis
    by (simp add: browsed_fields parent_b)
qed

text \<open>
  C6 as stated does not hold: a path that is not in the list after \<open>openImage\<close> need not
  end in an error. Here the directory of the path holds no image: the scan installs
  nothing, \<open>openImage\<close> returns normally, and the path, now selected, is not in the list.
\<close>

theorem openImage_silent_counterexample:
  "raised (openImage pics ''/other/x.txt'' shown) = None
   \<and> dirImageList (final (openImage pics ''/other/x.txt'' shown))
       = Some [''/pics/a.jpg'', ''/pics/b.png'', ''/pics/B.png'', ''/pics/C.gif'']
   \<and> ''/other/x.txt'' \<notin> set [''/pics/a.jpg'', ''/pics/b.png'', ''/pics/B.png'', ''/pics/C.gif'']
   \<and> imgFilePath (final (openImage pics ''/other/x.txt'' shown)) = ''/other/x.txt''"
  by (simp add: openImage_def Let_def log_call_def image_dir_other shown_def
      dirMakeImageList_def scan_other)


text \<open>
  C6, amended. When \<open>openImage\<close> rescans and the scan finds images but not the path, or
  when it does not rescan and the path is not in the list, \<open>list.index\<close> raises
  \<open>ValueError\<close>, which \<open>openImage\<close> does not catch (after a rescan the new list is already
  installed). When the scan finds nothing, \<open>openImage\<close> returns normally with the list
  and the index untouched and the path selected.
\<close>

theorem openImage_missing:
  assumes "p \<noteq> []"
  shows "((dirPath s = [] \<or> dirPath s \<noteq> image_dir p)
            \<and> scan w (image_dir p) \<noteq> [] \<and> p \<notin> set (scan w (image_dir p))
          \<longrightarrow> raised (openImage w p s) = Some ValueError
              \<and> dirImageList (final (openImage w p s))
                  = Some (sort_key (str_lower w) (scan w (image_dir p))))
       \<and> (dirPath s \<noteq> [] \<and> dirPath s = image_dir p
            \<and> dirImageList s = Some xs \<and> p \<notin> set xs
          \<longrightarrow> raised (openImage w p s) = Some ValueError
              \<and> dirImageList (final (openImage w p s)) = Some xs)
       \<and> ((dirPath s = [] \<or> dirPath s \<noteq> image_dir p) \<and> scan w (image_dir p) = []
          \<longrightarrow> raised (openImage w p s) = None
              \<and> dirImageList (final (openImage w p s)) = dirImageList s
              \<and> imageNumber (final (openImage w p s)) = imageNumber s
              \<and> imgFilePath (final (openImage w p s)) = p)"
proof -
  have rescanned: "raised (openImage w p s) = Some ValueError
      \<and> dirImageList (final (openImage w p s)) = Some (sort_key (str_lower w) (scan w (image_dir p)))"
    if "dirPath s = [] \<or> dirPath s \<noteq> image_dir p" and "scan w (image_dir p) \<noteq> []"
      and "p \<notin> set (scan w (image_dir p))"
    using that
    by (simp add: openImage_rescan [OF assms] dirMakeImageList_missing dirMakeImageList_list)
  have same: "raised (openImage w p s) = Some ValueError
      \<and> dirImageList (final (openImage w p s)) = Some xs"
    if "dirPath s \<noteq> []" and "dirPath s = image_dir p" and "dirImageList s = Some xs"
      and "p \<notin> set xs"
  proof -
    have "list_index xs p = None"
      using that(4) by (simp add: list_index_None)
    with that assms show ?thesis
      by (simp add: openImage_def Let_def log_call_def)
  qed
  have empty: "raised (openImage w p s) = None
      \<and> dirImageList (final (openImage w p s)) = dirImageList s
      \<and> imageNumber (final (openImage w p s)) = imageNumber s
      \<and> imgFilePath (final (openImage w p s)) = p"
    if "dirPath s = [] \<or> dirPath s \<noteq> image_dir p" and "scan w (image_dir p) = []"
    using that
    by (simp add: openImage_rescan [OF assms] dirMakeImageList_empty)
  from rescanned same empty show ?thesis by blast
qed

theorem openImage_missing_witness:
  "''/pics/x.txt'' \<notin> set (scan pics (image_dir ''/pics/x.txt''))
   \<and> raised (openImage pics ''/pics/x.txt'' (init (800, 600))) = Some ValueError
   \<and> dirImageList (final (openImage pics ''/pics/x.txt'' (init (800, 600))))
       = Some [''/pics/a.jpg'', ''/pics/b.png'', ''/pics/B.png'', ''/pics/C.gif'']
   \<and> raised (openImage pics ''/pics/x.txt'' shown) = Some ValueError
   \<and> raised (openImage pics ''/other/x.txt'' shown) = None"
proof -
  have n: "''/pics/x.txt'' \<notin> set (scan pics ''/pics/'')"
    and ne: "scan pics ''/pics/'' \<noteq> []"
    by (simp_all add: scan_pics)
  have "raised (openImage pics ''/pics/x.txt'' (init (800, 600))) = Some ValueError
   \<and> dirImageList (final (openImage pics ''/pics/x.txt'' (init (800, 600))))
       = Some [''/pics/a.jpg'', ''/pics/b.png'', ''/pics/B.png'', ''/pics/C.gif'']"
    using openImage_missing [of "''/pics/x.txt''" "init (800, 600)" pics] n ne
    by (simp add: image_dir_x pics_scan init_def)
  moreover have "raised (openImage pics ''/pics/x.txt'' shown) = Some ValueError"
    using openImage_missing [of "''/pics/x.txt''" shown pics
        "[''/pics/a.jpg'', ''/pics/b.png'', ''/pics/B.png'', ''/pics/C.gif'']"]
    by (simp add: image_dir_x shown_def)
  moreover have "raised (openImage pics ''/other/x.txt'' shown) = None"
    using openImage_missing [of "''/other/x.txt''" shown pics]
    by (simp add: image_dir_other scan_other shown_def)
  ultimately show ?thesis using n by (simp add: image_dir_x)
qed

section \<open>Stepping through the list\<close>

text \<open>
  C8. With a list that is not empty, \<open>nextImage\<close> at the last index sets the index to 0
  and \<open>prevImage\<close> at index 0 sets it to the last index; everywhere else \<open>nextImage\<close> adds
  one and \<open>prevImage\<close> takes one away. The index is set before the image is rendered, so
  this is the index the call leaves behind also when rendering raises.
\<close>

theorem wraparound:
  assumes "dirImageList s = Some xs" and "xs \<noteq> []" and "imageNumber s = Some i"
  shows "imageNumber (final (nextImage w s))
           = Some (if i = int (length xs) - 1 then 0 else i + 1)
       \<and> imageNumber (final (prevImage w s))
           = Some (if i = 0 then int (length xs) - 1 else i - 1)"
  using assms by (simp add: nextImage_index prevImage_index)

theorem wraparound_witness:
  "dirImageList at_last
     = Some [''/pics/a.jpg'', ''/pics/b.png'', ''/pics/B.png'', ''/pics/C.gif'']
   \<and> imageNumber at_last = Some 3 \<and> imageNumber shown = Some 0
   \<and> imageNumber (final (nextImage pics at_last)) = Some 0
   \<and> imageNumber (final (prevImage pics at_last)) = Some 2
   \<and> imageNumber (final (nextImage pics shown)) = Some 1
   \<and> imageNumber (final (prevImage pics shown)) = Some 3"
  using
    wraparound [of at_last "[''/pics/a.jpg'', ''/pics/b.png'', ''/pics/B.png'', ''/pics/C.gif'']"
      3 pics]
    wraparound [of shown "[''/pics/a.jpg'', ''/pics/b.png'', ''/pics/B.png'', ''/pics/C.gif'']"
      0 pics]
  by (simp add: at_last_def shown_def)

text \<open>
  C9. From every valid index of a list that is not empty, \<open>nextImage\<close> followed by
  \<open>prevImage\<close> gives the index back, and so does \<open>prevImage\<close> followed by \<open>nextImage\<close>.
\<close>

theorem round_trip:
  assumes "dirImageList s = Some xs" and "imageNumber s = Some i"
    and "0 \<le> i" and "i < int (length xs)"
  shows "imageNumber (final (prevImage w (final (nextImage w s)))) = Some i
       \<and> imageNumber (final (nextImage w (final (prevImage w s)))) = Some i"
proof -
  let ?n = "final (nextImage w s)" and ?p = "final (prevImage w s)"
  have n: "imageNumber ?n = Some (if i = int (length xs) - 1 then 0 else i + 1)"
    "dirImageList ?n = Some xs"
    using assms(1,2) by (rule nextImage_index)+
  have p: "imageNumber ?p = Some (if i = 0 then int (length xs) - 1 else i - 1)"
    "dirImageList ?p = Some xs"
    using assms(1,2) by (rule prevImage_index)+
  have "imageNumber (final (prevImage w ?n)) = Some i"
    using prevImage_index(1)[OF n(2) n(1)] assms(3,4) by auto
  moreover have "imageNumber (final (nextImage w ?p)) = Some i"
    using nextImage_index(1)[OF p(2) p(1)] assms(3,4) by auto
  ultimately show ?thesis by simp
qed

theorem round_trip_witness:
  "dirImageList at_last
     = Some [''/pics/a.jpg'', ''/pics/b.png'', ''/pics/B.png'', ''/pics/C.gif'']
   \<and> imageNumber at_last = Some 3
   \<and> imageNumber (final (prevImage pics (final (nextImage pics at_last)))) = Some 3
   \<and> imageNumber (final (nextImage pics (final (prevImage pics at_last)))) = Some 3"
  using
    round_trip [of at_last "[''/pics/a.jpg'', ''/pics/b.png'', ''/pics/B.png'', ''/pics/C.gif'']"
      3 pics]
  by (simp add: at_last_def shown_def)

section \<open>Rendering\<close>

text \<open>
  C10. While no image was ever selected (\<open>imgFilePath\<close> is blank), \<open>updateFunction\<close>,
  whatever its argument, returns without an exception having written the viewport size
  and nothing else: the label's pixmap, the scratch thumbnail files, \<open>imTOut\<close> and the
  timer are as before.
\<close>

theorem resize_without_image:
  assumes "imgFilePath s = []"
  shows "updateFunction w i s
           = Inr (s\<lparr>mwWidth := Some (fst (labelGeometry s)),
                    mwHeight := Some (snd (labelGeometry s))\<rparr>)
       \<and> labelPixmap (final (updateFunction w i s)) = labelPixmap s
       \<and> thumbnails (final (updateFunction w i s)) = thumbnails s
       \<and> imTOut (final (updateFunction w i s)) = imTOut s
       \<and> timer (final (updateFunction w i s)) = timer s"
  using assms by (simp add: updateFunction_def Let_def)

theorem resize_without_image_witness:
  "imgFilePath (init (800, 600)) = []
   \<and> raised (updateFunction pics 1 (init (800, 600))) = None
   \<and> labelPixmap (final (updateFunction pics 1 (init (800, 600)))) = None
   \<and> thumbnails (final (updateFunction pics 1 (init (800, 600)))) thumb_path = None
   \<and> timer (final (updateFunction pics 1 (init (800, 600)))) = None"
  using resize_without_image [of "init (800, 600)" pics 1]
  by (simp add: init_def)

text \<open>
  C3 as stated does not hold: the selected path is not preserved when the image cannot be
  decoded. \<open>prevImage\<close> from \<open>/pics/a.jpg\<close> wraps to \<open>/pics/C.gif\<close>, which PIL cannot
  open: the exception goes out, and \<open>imgFilePath\<close> is \<open>/pics/C.gif\<close>.
\<close>

theorem failed_decode_counterexample:
  "raised (prevImage pics shown) = Some UnidentifiedImageError
   \<and> imgFilePath shown = ''/pics/a.jpg''
   \<and> imgFilePath (final (prevImage pics shown)) = ''/pics/C.gif''"
  by (simp add: prevImage_def Let_def log_call_def list_get_def shown_def updateFunction_def)
     (simp add: pics_def)

text \<open>
  C3, amended. An image is selected by assigning \<open>imgFilePath\<close> and calling
  \<open>updateFunction(0)\<close>; \<open>nextImage\<close>, \<open>prevImage\<close> and \<open>dirMakeImageList\<close> do so after setting
  the index (and the list). When the file at the new path cannot be decoded, the
  exception of the decoder leaves the call uncaught, and what is displayed is kept: the
  label's pixmap, the detail labels, the scratch thumbnail, \<open>imTOut\<close> and the timer are as
  before. The selection is not kept: \<open>imgFilePath\<close> is the new path, and the index (and
  list) are the new ones.
\<close>

theorem failed_decode:
  assumes "p \<noteq> []" and "decode_error w p = Some e"
  shows "raised (updateFunction w 0 (s\<lparr>imgFilePath := p\<rparr>)) = Some e
       \<and> imgFilePath (final (updateFunction w 0 (s\<lparr>imgFilePath := p\<rparr>))) = p
       \<and> display_kept s (final (updateFunction w 0 (s\<lparr>imgFilePath := p\<rparr>)))
       \<and> (dirImageList s = Some xs \<and> imageNumber s = Some i
            \<and> list_get xs (if i \<noteq> int (length xs) - 1 then i + 1 else 0) = Some p
          \<longrightarrow> raised (nextImage w s) = Some e
              \<and> imgFilePath (final (nextImage w s)) = p
              \<and> imageNumber (final (nextImage w s))
                  = Some (if i \<noteq> int (length xs) - 1 then i + 1 else 0)
              \<and> display_kept s (final (nextImage w s)))
       \<and> (dirImageList s = Some xs \<and> imageNumber s = Some i
            \<and> list_get xs (if i \<noteq> 0 then i - 1 else int (length xs) - 1) = Some p
          \<longrightarrow> raised (prevImage w s) = Some e
              \<and> imgFilePath (final (prevImage w s)) = p
              \<and> imageNumber (final (prevImage w s))
                  = Some (if i \<noteq> 0 then i - 1 else int (length xs) - 1)
              \<and> display_kept s (final (prevImage w s)))
       \<and> (scan w (dirPath s) \<noteq> []
            \<and> (if h = 1 then list_index (sort_key (str_lower w) (scan w (dirPath s)))
                               (imgFilePath s)
                else Some 0) = Some n
            \<and> list_get (sort_key (str_lower w) (scan w (dirPath s))) (int n) = Some p
          \<longrightarrow> raised (dirMakeImageList w h s) = Some e
              \<and> imgFilePath (final (dirMakeImageList w h s)) = p
              \<and> imageNumber (final (dirMakeImageList w h s)) = Some (int n)
              \<and> dirImageList (final (dirMakeImageList w h s))
                  = Some (sort_key (str_lower w) (scan w (dirPath s)))
              \<and> display_kept s (final (dirMakeImageList w h s)))"
proof -
  have direct: "raised (updateFunction w 0 (s\<lparr>imgFilePath := p\<rparr>)) = Some e
       \<and> imgFilePath (final (updateFunction w 0 (s\<lparr>imgFilePath := p\<rparr>))) = p
       \<and> display_kept s (final (updateFunction w 0 (s\<lparr>imgFilePath := p\<rparr>)))"
  proof -
    obtain s'' where "updateFunction w 0 (s\<lparr>imgFilePath := p\<rparr>) = Inl (e, s'')"
      "display_kept s s''" "imgFilePath s'' = p"
      by (rule select_undecodable [OF assms, of s s]) simp_all
    then show ?thesis by simp
  qed
  have nxt: "raised (nextImage w s) = Some e
              \<and> imgFilePath (final (nextImage w s)) = p
              \<and> imageNumber (final (nextImage w s))
                  = Some (if i \<noteq> int (length xs) - 1 then i + 1 else 0)
              \<and> display_kept s (final (nextImage w s))"
    if a: "dirImageList s = Some xs \<and> imageNumber s = Some i
            \<and> list_get xs (if i \<noteq> int (length xs) - 1 then i + 1 else 0) = Some p"
  proof -
    let ?k = "if i \<noteq> int (length xs) - 1 then i + 1 else 0"
    let ?s' = "(log_call DEBUG (ShowingNext i) s)\<lparr>imageNumber := Some ?k\<rparr>"
    have n: "nextImage w s = updateFunction w 0 (?s'\<lparr>imgFilePath := p\<rparr>)"
      using a by (simp add: nextImage_def Let_def log_call_def)
    obtain s'' where "updateFunction w 0 (?s'\<lparr>imgFilePath := p\<rparr>) = Inl (e, s'')"
      "display_kept s s''" "imgFilePath s'' = p" "imageNumber s'' = imageNumber ?s'"
      by (rule select_undecodable [OF assms, of ?s' s]) (simp_all add: log_call_def)
    then show ?thesis unfolding n by (simp add: log_call_def)
  qed
  have prv: "raised (prevImage w s) = Some e
              \<and> imgFilePath (final (prevImage w s)) = p
              \<and> imageNumber (final (prevImage w s))
                  = Some (if i \<noteq> 0 then i - 1 else int (length xs) - 1)
              \<and> display_kept s (final (prevImage w s))"
    if a: "dirImageList s = Some xs \<and> imageNumber s = Some i
            \<and> list_get xs (if i \<noteq> 0 then i - 1 else int (length xs) - 1) = Some p"
  proof -
    let ?k = "if i \<noteq> 0 then i - 1 else int (length xs) - 1"
    let ?s' = "(log_call DEBUG (ShowingPrev i) s)\<lparr>imageNumber := Some ?k\<rparr>"
    have n: "prevImage w s = updateFunction w 0 (?s'\<lparr>imgFilePath := p\<rparr>)"
      using a by (simp add: prevImage_def Let_def log_call_def)
    obtain s'' where "updateFunction w 0 (?s'\<lparr>imgFilePath := p\<rparr>) = Inl (e, s'')"
      "display_kept s s''" "imgFilePath s'' = p" "imageNumber s'' = imageNumber ?s'"
      by (rule select_undecodable [OF assms, of ?s' s]) (simp_all add: log_call_def)
    then show ?thesis unfolding n by (simp add: log_call_def)
  qed
  have mk: "raised (dirMakeImageList w h s) = Some e
              \<and> imgFilePath (final (dirMakeImageList w h s)) = p
              \<and> imageNumber (final (dirMakeImageList w h s)) = Some (int n)
              \<and> dirImageList (final (dirMakeImageList w h s))
                  = Some (sort_key (str_lower w) (scan w (dirPath s)))
              \<and> display_kept s (final (dirMakeImageList w h s))"
    if a: "scan w (dirPath s) \<noteq> []
            \<and> (if h = 1 then list_index (sort_key (str_lower w) (scan w (dirPath s)))
                               (imgFilePath s)
                else Some 0) = Some n
            \<and> list_get (sort_key (str_lower w) (scan w (dirPath s))) (int n) = Some p"
  proof -
    let ?L = "sort_key (str_lower w) (scan w (dirPath s))"
    have ne: "?L \<noteq> []"
      using a by (metis length_sort length_0_conv)
    let ?s' = "s\<lparr>dirImageList' := Some ?L,
                  globCalls := globCalls s @ patterns (dirPath s),
                  logged := logged s @ [(INFO, ListNotEmpty), (DEBUG, ListDump ?L),
                                        (INFO, ListLength (length ?L)), (INFO, SettingList)],
                  dirImageList := Some ?L, imageNumber := Some (int n)\<rparr>"
    obtain s'' where r: "updateFunction w 0 (?s'\<lparr>imgFilePath := p\<rparr>) = Inl (e, s'')"
      and k: "display_kept s s''" "imgFilePath s'' = p" "imageNumber s'' = imageNumber ?s'"
        "dirImageList s'' = dirImageList ?s'"
      by (rule select_undecodable [OF assms, of ?s' s]) simp_all
    have d: "dirMakeImageList w h s = Inl (e, s'')"
      unfolding dirMakeImageList_def Let_def
      using ne a r by (cases "h = 1") (auto simp: log_call_def)
    show ?thesis unfolding d using k by simp
  qed
  from direct nxt prv mk show ?thesis by blast
qed

theorem failed_decode_witness:
  "decode_error pics ''/pics/C.gif'' = Some UnidentifiedImageError
   \<and> decode_error pics ''/pics/B.png'' = Some OSError
   \<and> raised (updateFunction pics 0 (shown\<lparr>imgFilePath := ''/pics/C.gif''\<rparr>))
       = Some UnidentifiedImageError
   \<and> display_kept shown (final (updateFunction pics 0 (shown\<lparr>imgFilePath := ''/pics/C.gif''\<rparr>)))
   \<and> raised (nextImage pics (shown\<lparr>imageNumber := Some 1\<rparr>)) = Some OSError
   \<and> imgFilePath (final (nextImage pics (shown\<lparr>imageNumber := Some 1\<rparr>))) = ''/pics/B.png''
   \<and> imageNumber (final (nextImage pics (shown\<lparr>imageNumber := Some 1\<rparr>))) = Some 2
   \<and> labelPixmap (final (nextImage pics (shown\<lparr>imageNumber := Some 1\<rparr>)))
       = Some \<lparr>source = FromImage ''/pics/a.jpg'', boxW = 800, boxH = 600,
                mode = SmoothTransformation\<rparr>
   \<and> raised (prevImage pics shown) = Some UnidentifiedImageError
   \<and> imageNumber (final (prevImage pics shown)) = Some 3
   \<and> display_kept shown (final (prevImage pics shown))
   \<and> raised (dirMakeImageList pics 1 (shown\<lparr>imgFilePath := ''/pics/C.gif''\<rparr>))
       = Some UnidentifiedImageError
   \<and> imageNumber (final (dirMakeImageList pics 1 (shown\<lparr>imgFilePath := ''/pics/C.gif''\<rparr>)))
       = Some 3"
proof -
  let ?xs = "[''/pics/a.jpg'', ''/pics/b.png'', ''/pics/B.png'', ''/pics/C.gif'']"
  have c: "''/pics/C.gif'' \<noteq> []" and b: "''/pics/B.png'' \<noteq> []" by simp_all
  note fc = failed_decode [OF c pics_decode(1)] and fb = failed_decode [OF b pics_decode(2)]
  have 1: "raised (updateFunction pics 0 (shown\<lparr>imgFilePath := ''/pics/C.gif''\<rparr>))
       = Some UnidentifiedImageError
     \<and> display_kept shown (final (updateFunction pics 0 (shown\<lparr>imgFilePath := ''/pics/C.gif''\<rparr>)))"
    using fc [of shown] by simp
  have 2: "raised (nextImage pics (shown\<lparr>imageNumber := Some 1\<rparr>)) = Some OSError
     \<and> imgFilePath (final (nextImage pics (shown\<lparr>imageNumber := Some 1\<rparr>))) = ''/pics/B.png''
     \<and> imageNumber (final (nextImage pics (shown\<lparr>imageNumber := Some 1\<rparr>))) = Some 2
     \<and> labelPixmap (final (nextImage pics (shown\<lparr>imageNumber := Some 1\<rparr>)))
         = Some \<lparr>source = FromImage ''/pics/a.jpg'', boxW = 800, boxH = 600,
                  mode = SmoothTransformation\<rparr>"
    using fb [of "shown\<lparr>imageNumber := Some 1\<rparr>" ?xs 1]
    by (simp add: shown_def list_get_def display_kept_def)
  have 3: "raised (prevImage pics shown) = Some UnidentifiedImageError
     \<and> imageNumber (final (prevImage pics shown)) = Some 3
     \<and> display_kept shown (final (prevImage pics shown))"
    using fc [of shown ?xs 0] by (simp add: shown_def list_get_def)
  have d: "dirPath (shown\<lparr>imgFilePath := ''/pics/C.gif''\<rparr>) = ''/pics/''"
    by (simp add: shown_def)
  have i: "list_index ?xs ''/pics/C.gif'' = Some 3"
    by code_simp
  have 4: "raised (dirMakeImageList pics 1 (shown\<lparr>imgFilePath := ''/pics/C.gif''\<rparr>))
       = Some UnidentifiedImageError
     \<and> imageNumber (final (dirMakeImageList pics 1 (shown\<lparr>imgFilePath := ''/pics/C.gif''\<rparr>)))
       = Some 3"
    using fc [where s = "shown\<lparr>imgFilePath := ''/pics/C.gif''\<rparr>" and h = 1 and n = 3] i
    unfolding d pics_scan by (simp add: list_get_def scan_pics)
  from 1 2 3 4 pics_decode show ?thesis by simp
qed

text \<open>
  C4 as stated does not hold: selecting another image does not disarm the timer. With the
  timer pending for time 350, \<open>nextImage\<close> selects \<open>/pics/b.png\<close> and the timer is still
  pending for time 350.
\<close>

theorem selection_keeps_timer_counterexample:
  "timer resizing = Some 350
   \<and> imgFilePath resizing = ''/pics/a.jpg''
   \<and> raised (nextImage pics resizing) = None
   \<and> imgFilePath (final (nextImage pics resizing)) = ''/pics/b.png''
   \<and> timer (final (nextImage pics resizing)) = Some 350"
proof -
  have "imgFilePath (final (nextImage pics resizing)) = ''/pics/b.png''
      \<and> raised (nextImage pics resizing) = None"
    by (simp add: nextImage_def Let_def log_call_def list_get_def resizing_fields
        updateFunction_def)
       (simp add: pics_def)
  then show ?thesis
    by (simp add: nextImage_timer resizing_fields)
qed

text \<open>
  C4, amended. No method that selects an image (\<open>nextImage\<close>, \<open>prevImage\<close>, \<open>openImage\<close>,
  \<open>openDir\<close>, \<open>dirMakeImageList\<close>, \<open>updateFunction(0)\<close>) starts or stops the timer: a
  pending timeout stays pending for the same time. When it fires, \<open>updateTimerFunc\<close>
  renders the path that is selected then, in full quality, and stops the timer.
\<close>

theorem selection_keeps_timer:
  "timer (final (nextImage w s)) = timer s
   \<and> timer (final (prevImage w s)) = timer s
   \<and> timer (final (openImage w p s)) = timer s
   \<and> timer (final (openDir w d s)) = timer s
   \<and> timer (final (dirMakeImageList w h s)) = timer s
   \<and> timer (final (updateFunction w 0 s)) = timer s
   \<and> (mwWidth s = Some a \<and> mwHeight s = Some b \<longrightarrow>
        updateTimerFunc s
          = Inr (s\<lparr>labelPixmap := Some \<lparr>source = FromImage (imgFilePath s), boxW = a,
                                         boxH = b, mode = SmoothTransformation\<rparr>,
                   timer := None\<rparr>))"
  by (simp add: nextImage_timer prevImage_timer openImage_timer openDir_timer
      dirMakeImageList_timer updateFunction_timer0 updateTimerFunc_def)

theorem selection_keeps_timer_witness:
  "mwWidth (final (nextImage pics resizing)) = Some 400
   \<and> timer (final (nextImage pics resizing)) = Some 350
   \<and> labelPixmap (final (updateTimerFunc (final (nextImage pics resizing))))
       = Some \<lparr>source = FromImage ''/pics/b.png'', boxW = 400, boxH = 300,
                mode = SmoothTransformation\<rparr>
   \<and> timer (final (updateTimerFunc (final (nextImage pics resizing)))) = None"
proof -
  let ?s = "final (nextImage pics resizing)"
  have f: "imgFilePath ?s = ''/pics/b.png''" "mwWidth ?s = Some 400" "mwHeight ?s = Some 300"
    by (simp_all add: nextImage_def Let_def log_call_def list_get_def resizing_def shown_def
        updateFunction_def pics_def)
  from selection_keeps_timer [of pics resizing "[]" "[]" 0 400 300]
    selection_keeps_timer [of pics ?s "[]" "[]" 0 400 300] f
  show ?thesis
    by (simp add: resizing_fields)
qed

text \<open>
  C1 as stated does not hold: the upgrade comes 250 time units after the first resize of
  the burst, not after the last. Resizes at times 0 and 100 are followed by one run of
  the timer's slot, at time 250 and not at time 350.
\<close>

theorem burst_one_upgrade_counterexample:
  "snd (run_until 1000 (run pics [(0, (700, 500)), (100, (400, 300))] (shown, [])))
     = [(250,
         Some \<lparr>source = FromThumb (Some ''/pics/a.jpg''), boxW = 400, boxH = 300,
                mode = FastTransformation\<rparr>,
         Some \<lparr>source = FromImage ''/pics/a.jpg'', boxW = 400, boxH = 300,
                mode = SmoothTransformation\<rparr>)]
   \<and> (250::nat) \<noteq> 100 + 250"
proof -
  have "imgFilePath shown \<noteq> []" "imTOut shown = Some thumb_path" "timer shown = None"
    "\<forall>e\<in>set [(100::nat, (400::int, 300::int))]. fst e < 0 + 250"
    by (simp_all add: shown_def)
  from burst(3) [OF this, where T = 1000 and g = "(700, 500)" and w = pics] show ?thesis
    by (simp add: shown_def)
qed

text \<open>
  C1, amended. With an image selected and rendered and the timer idle, a burst of resize
  events at non-decreasing times, all less than 250 time units after the first, makes the
  timer's slot run exactly once, 250 time units after the first resize (later resizes do
  not restart the timer): no run before that time, and at that time one run that replaces
  the fast-scaled thumbnail at the last viewport size by the smoothly scaled full image at
  the same size and stops the timer.
\<close>

theorem burst_one_upgrade:
  assumes "imgFilePath s \<noteq> []" and "imTOut s = Some f" and "timer s = None"
    and "sorted (t # map fst es)" and "\<forall>e\<in>set es. fst e < t + 250"
  shows "(T < t + 250 \<longrightarrow>
            snd (run_until T (run w ((t, g) # es) (s, []))) = []
            \<and> timer (fst (run_until T (run w ((t, g) # es) (s, [])))) = Some (t + 250))
       \<and> (t + 250 \<le> T \<longrightarrow>
            snd (run_until T (run w ((t, g) # es) (s, [])))
              = [(t + 250,
                  Some \<lparr>source = FromThumb (thumbnails s f),
                         boxW = fst (snd (last ((t, g) # es))),
                         boxH = snd (snd (last ((t, g) # es))), mode = FastTransformation\<rparr>,
                  Some \<lparr>source = FromImage (imgFilePath s),
                         boxW = fst (snd (last ((t, g) # es))),
                         boxH = snd (snd (last ((t, g) # es))),
                         mode = SmoothTransformation\<rparr>)]
            \<and> timer (fst (run_until T (run w ((t, g) # es) (s, [])))) = None
            \<and> labelPixmap (fst (run_until T (run w ((t, g) # es) (s, []))))
                = Some \<lparr>source = FromImage (imgFilePath s),
                         boxW = fst (snd (last ((t, g) # es))),
                         boxH = snd (snd (last ((t, g) # es))),
                         mode = SmoothTransformation\<rparr>)"
  using burst [OF assms(1,2,3,5), where T = T and g = g and w = w] by simp

theorem burst_one_upgrade_witness:
  "imgFilePath shown = ''/pics/a.jpg'' \<and> imTOut shown = Some thumb_path \<and> timer shown = None
   \<and> sorted (10 # map fst [(60::nat, (500::int, 400::int)), (200, (300, 200))])
   \<and> snd (run_until 259 (run pics [(10, (700, 500)), (60, (500, 400)), (200, (300, 200))]
            (shown, []))) = []
   \<and> snd (run_until 260 (run pics [(10, (700, 500)), (60, (500, 400)), (200, (300, 200))]
            (shown, [])))
       = [(260,
           Some \<lparr>source = FromThumb (Some ''/pics/a.jpg''), boxW = 300, boxH = 200,
                  mode = FastTransformation\<rparr>,
           Some \<lparr>source = FromImage ''/pics/a.jpg'', boxW = 300, boxH = 200,
                  mode = SmoothTransformation\<rparr>)]
   \<and> timer (fst (run_until 260 (run pics [(10, (700, 500)), (60, (500, 400)), (200, (300, 200))]
            (shown, [])))) = None"
proof -
  have h: "imgFilePath shown \<noteq> []" "imTOut shown = Some thumb_path" "timer shown = None"
    "sorted (10 # map fst [(60::nat, (500::int, 400::int)), (200, (300, 200))])"
    "\<forall>e\<in>set [(60::nat, (500::int, 400::int)), (200, (300, 200))]. fst e < 10 + 250"
    by (simp_all add: shown_def)
  from burst_one_upgrade [OF h, where T = 259 and w = pics and g = "(700, 500)"]
    burst_one_upgrade [OF h, where T = 260 and w = pics and g = "(700, 500)"] h(4)
  show ?thesis
    by (simp add: shown_def)
qed

end
